theory Spec2Isabelle
  imports Main "HOL-Library.Word"
begin

unbundle bit_operations_syntax

section \<open>Bytes and C strings\<close>

text \<open>
  A byte is a \<^typ>\<open>char\<close> (eight bits); a \<open>bytea\<close> value, the 20 bytes of an OID and the
  contents of a C buffer are lists of bytes.  \<open>of_char\<close> reads a byte as a number in
  \<open>0..255\<close>, \<open>char_of\<close> keeps the low eight bits of a number.
\<close>

type_synonym bytes = "char list"

text \<open>
  A C string is the part of a buffer before its first NUL byte; \<open>strlen\<close> is its length.
\<close>

definition cstr :: "bytes \<Rightarrow> string" where
  "cstr buf = takeWhile (\<lambda>c. c \<noteq> CHR 0x00) buf"

definition strlen :: "bytes \<Rightarrow> nat" where
  "strlen buf = length (cstr buf)"

section \<open>OID codec (\<open>ext/git_oid.c\<close>)\<close>

text \<open>
  \<open>hex_to_nibble\<close>: the three ranges are compared on the character codes.  All three lie
  inside ASCII, so the result is the same whether the platform's \<open>char\<close> is signed or not.
\<close>

definition hex_to_nibble :: "char \<Rightarrow> int" where
  "hex_to_nibble c =
     (if of_char c \<ge> (of_char (CHR ''0'') :: int) \<and> of_char c \<le> (of_char (CHR ''9'') :: int)
        then of_char c - of_char (CHR ''0'')
      else if of_char c \<ge> (of_char (CHR ''a'') :: int) \<and> of_char c \<le> (of_char (CHR ''f'') :: int)
        then of_char c - of_char (CHR ''a'') + 10
      else if of_char c \<ge> (of_char (CHR ''A'') :: int) \<and> of_char c \<le> (of_char (CHR ''F'') :: int)
        then of_char c - of_char (CHR ''A'') + 10
      else - 1)"

definition nibble_to_hex :: "int \<Rightarrow> char" where
  "nibble_to_hex n = ''0123456789abcdef'' ! nat (n AND 0xf)"

text \<open>
  \<open>git_oid_in\<close> raises \<open>ERRCODE_INVALID_TEXT_REPRESENTATION\<close> in two places; the two
  constructors keep the two messages apart.
\<close>

datatype oid_error =
    NotFortyHexChars    \<comment> \<open>"invalid git OID: must be exactly 40 hex characters"\<close>
  | InvalidHexChar      \<comment> \<open>"invalid hex character in git OID"\<close>

text \<open>
  The body of \<open>for (i = 0; i < 20; i++)\<close>, run over the indices that are left.  The
  \<open>ereport\<close> inside the loop leaves the function at the first bad pair.
\<close>

fun git_oid_in_loop :: "bytes \<Rightarrow> nat list \<Rightarrow> oid_error + bytes" where
  "git_oid_in_loop str [] = Inr []"
| "git_oid_in_loop str (i # rest) =
     (let hi = hex_to_nibble (str ! (i * 2));
          lo = hex_to_nibble (str ! (i * 2 + 1))
      in if hi < 0 \<or> lo < 0 then Inl InvalidHexChar
         else (case git_oid_in_loop str rest of
                 Inl e \<Rightarrow> Inl e
               | Inr data \<Rightarrow> Inr (char_of (push_bit 4 hi OR lo) # data)))"

definition git_oid_in :: "bytes \<Rightarrow> oid_error + bytes" where
  "git_oid_in str =
     (if strlen str \<noteq> 40 then Inl NotFortyHexChars
      else git_oid_in_loop str [0..<20])"

text \<open>
  \<open>git_oid_out\<close>: \<open>(unsigned char) oid->data[i] >> 4\<close> is the high nibble of the byte;
  \<open>oid->data[i] & 0xf\<close> is its low nibble (sign extension of a signed \<open>char\<close> does not
  reach the low four bits).  A \<open>GitOid\<close> holds exactly 20 bytes.
\<close>

definition git_oid_out :: "bytes \<Rightarrow> string" where
  "git_oid_out oid =
     concat (map (\<lambda>i. [nibble_to_hex (drop_bit 4 (of_char (oid ! i))),
                        nibble_to_hex (of_char (oid ! i) AND 0xf)]) [0..<20])"

text \<open>
  Case folding of ASCII letters, used only to state that parsing ignores case.
\<close>

definition ascii_toupper :: "char \<Rightarrow> char" where
  "ascii_toupper c =
     (if (97 :: int) \<le> of_char c \<and> of_char c \<le> (122 :: int)
      then char_of (of_char c - (32 :: int)) else c)"

definition ascii_tolower :: "char \<Rightarrow> char" where
  "ascii_tolower c =
     (if (65 :: int) \<le> of_char c \<and> of_char c \<le> (90 :: int)
      then char_of (of_char c + (32 :: int)) else c)"

definition hex_digits :: "char set" where
  "hex_digits = set ''0123456789abcdefABCDEF''"


text \<open>
  The two parts of what \<open>git_oid_in\<close>'s loop computes, named so that its result can be
  stated in closed form.
\<close>

definition hex_pairs_ok :: "bytes \<Rightarrow> nat list \<Rightarrow> bool" where
  "hex_pairs_ok str is \<longleftrightarrow>
     (\<forall>i\<in>set is. 0 \<le> hex_to_nibble (str ! (i * 2)) \<and> 0 \<le> hex_to_nibble (str ! (i * 2 + 1)))"

definition hex_pairs_bytes :: "bytes \<Rightarrow> nat list \<Rightarrow> bytes" where
  "hex_pairs_bytes str is =
     map (\<lambda>i. char_of (push_bit 4 (hex_to_nibble (str ! (i * 2)))
                         OR hex_to_nibble (str ! (i * 2 + 1)))) is"

section \<open>SHA-1\<close>

text \<open>
  \<open>git_object_hash_c\<close> calls OpenSSL's \<open>EVP_sha1\<close> and the SQL \<open>git_object_hash\<close> calls
  pgcrypto's \<open>digest(..., 'sha1')\<close>.  Both compute SHA-1 (FIPS 180-4), which is written out
  here: 32-bit words are integers in \<open>0..2^32-1\<close> and every addition and rotation has its
  reduction modulo \<open>2^32\<close> written out.
\<close>

definition add32 :: "int \<Rightarrow> int \<Rightarrow> int" where
  "add32 x y = (x + y) mod 4294967296"

definition rotl32 :: "nat \<Rightarrow> int \<Rightarrow> int" where
  "rotl32 n x = (x * 2 ^ n) mod 4294967296 OR x div 2 ^ (32 - n)"

definition not32 :: "int \<Rightarrow> int" where
  "not32 x = 4294967295 - x"

definition sha1_f :: "nat \<Rightarrow> int \<Rightarrow> int \<Rightarrow> int \<Rightarrow> int" where
  "sha1_f t b c d =
     (if t < 20 then (b AND c) OR (not32 b AND d)
      else if t < 40 then b XOR c XOR d
      else if t < 60 then (b AND c) OR (b AND d) OR (c AND d)
      else b XOR c XOR d)"

definition sha1_k :: "nat \<Rightarrow> int" where
  "sha1_k t =
     (if t < 20 then 0x5A827999 else if t < 40 then 0x6ED9EBA1
      else if t < 60 then 0x8F1BBCDC else 0xCA62C1D6)"

text \<open>
  The message schedule, most recent word first: with \<open>W\<^sub>t\<close> about to be added, the list
  starts \<open>W\<^sub>t\<^sub>-\<^sub>1, W\<^sub>t\<^sub>-\<^sub>2, ...\<close>, so \<open>W\<^sub>t\<^sub>-\<^sub>3\<close>, \<open>W\<^sub>t\<^sub>-\<^sub>8\<close>, \<open>W\<^sub>t\<^sub>-\<^sub>1\<^sub>4\<close> and \<open>W\<^sub>t\<^sub>-\<^sub>1\<^sub>6\<close> are at
  positions 2, 7, 13 and 15.
\<close>

fun sha1_schedule :: "nat \<Rightarrow> int list \<Rightarrow> int list" where
  "sha1_schedule 0 ws = ws"
| "sha1_schedule (Suc n) ws =
     sha1_schedule n (rotl32 1 (ws ! 2 XOR ws ! 7 XOR ws ! 13 XOR ws ! 15) # ws)"

type_synonym sha1_state = "int \<times> int \<times> int \<times> int \<times> int"

fun sha1_rounds :: "nat \<Rightarrow> int list \<Rightarrow> sha1_state \<Rightarrow> sha1_state" where
  "sha1_rounds t [] (a, b, c, d, e) = (a, b, c, d, e)"
| "sha1_rounds t (w # ws) (a, b, c, d, e) =
     sha1_rounds (t + 1) ws
       (add32 (add32 (add32 (add32 (rotl32 5 a) (sha1_f t b c d)) e) (sha1_k t)) w,
        a, rotl32 30 b, c, d)"

definition be32 :: "bytes \<Rightarrow> int" where
  "be32 bs = of_char (bs ! 0) * 16777216 + of_char (bs ! 1) * 65536
           + of_char (bs ! 2) * 256 + of_char (bs ! 3)"

fun sha1_words :: "nat \<Rightarrow> bytes \<Rightarrow> int list" where
  "sha1_words 0 bs = []"
| "sha1_words (Suc n) bs = be32 bs # sha1_words n (drop 4 bs)"

fun sha1_add_state :: "sha1_state \<Rightarrow> sha1_state \<Rightarrow> sha1_state" where
  "sha1_add_state (h0, h1, h2, h3, h4) (a, b, c, d, e) =
     (add32 h0 a, add32 h1 b, add32 h2 c, add32 h3 d, add32 h4 e)"

definition sha1_compress :: "sha1_state \<Rightarrow> bytes \<Rightarrow> sha1_state" where
  "sha1_compress h blk =
     sha1_add_state h (sha1_rounds 0 (rev (sha1_schedule 64 (rev (sha1_words 16 blk)))) h)"

fun sha1_blocks :: "nat \<Rightarrow> sha1_state \<Rightarrow> bytes \<Rightarrow> sha1_state" where
  "sha1_blocks 0 h bs = h"
| "sha1_blocks (Suc n) h bs = sha1_blocks n (sha1_compress h (take 64 bs)) (drop 64 bs)"

definition be32_bytes :: "int \<Rightarrow> bytes" where
  "be32_bytes x = [char_of (x div 16777216), char_of (x div 65536), char_of (x div 256), char_of x]"

definition be64_bytes :: "int \<Rightarrow> bytes" where
  "be64_bytes x = be32_bytes (x div 4294967296) @ be32_bytes x"

text \<open>
  Padding: the byte \<open>0x80\<close>, zero bytes up to 56 modulo 64, and the bit length in 64 bits.
\<close>

definition sha1_pad :: "bytes \<Rightarrow> bytes" where
  "sha1_pad m = m @ [CHR 0x80] @ replicate ((119 - length m mod 64) mod 64) (CHR 0x00)
      @ be64_bytes (8 * int (length m))"

fun sha1_digest :: "sha1_state \<Rightarrow> bytes" where
  "sha1_digest (a, b, c, d, e) =
     be32_bytes a @ be32_bytes b @ be32_bytes c @ be32_bytes d @ be32_bytes e"

definition SHA1 :: "bytes \<Rightarrow> bytes" where
  "SHA1 m =
     sha1_digest (sha1_blocks (length (sha1_pad m) div 64)
       (0x67452301, 0xEFCDAB89, 0x98BADCFE, 0x10325476, 0xC3D2E1F0) (sha1_pad m))"

section \<open>Object hasher (\<open>ext/sha1_hash.c\<close>)\<close>

text \<open>
  \<open>snprintf\<close>'s \<open>%d\<close>: the decimal digits, with a minus sign for a negative number.
\<close>

function dec_digits :: "nat \<Rightarrow> string" where
  "dec_digits n =
     (if n < 10 then [char_of (48 + n)]
      else dec_digits (n div 10) @ [char_of (48 + n mod 10)])"
  by pat_completeness auto
termination
  by (relation "measure id") auto

declare dec_digits.simps [simp del]

definition printf_d :: "int \<Rightarrow> string" where
  "printf_d k = (if k < 0 then CHR ''-'' # dec_digits (nat (- k)) else dec_digits (nat k))"

text \<open>
  The number that a string of decimal digits denotes.
\<close>

definition dec_value :: "string \<Rightarrow> nat" where
  "dec_value ds = foldl (\<lambda>a c. 10 * a + (of_char c - 48)) 0 ds"

text \<open>
  \<open>int content_len = VARSIZE_ANY_EXHDR(content)\<close>: a size converted to a 32-bit \<open>int\<close>.
\<close>

definition c_int_of_size :: "nat \<Rightarrow> int" where
  "c_int_of_size n = (int n + 2147483648) mod 4294967296 - 2147483648"

datatype hash_error =
    InvalidObjectType int     \<comment> \<open>\<open>ERRCODE_INVALID_PARAMETER_VALUE\<close>, "invalid git object type: %d"\<close>
  | EvpCtxAllocFailed         \<comment> \<open>"could not allocate EVP_MD_CTX"\<close>
  | Sha1ComputationFailed     \<comment> \<open>"SHA1 computation failed"\<close>

text \<open>
  What the OpenSSL calls do besides computing the digest: \<open>EVP_MD_CTX_new\<close> may return
  NULL and a digest call may report failure.
\<close>

datatype evp_outcome = EVP_OK | EVP_CTX_NEW_FAILED | EVP_DIGEST_FAILED

text \<open>
  \<open>git_object_hash_c(type smallint, content bytea)\<close>.  The header is \<open>"%s %d"\<close> of the
  type name and the content length; \<open>header_len++\<close> makes the hashed header end with the
  NUL that \<open>snprintf\<close> wrote.  The 64-byte header buffer is never too small (at most 18
  characters are written).
\<close>

definition git_object_hash_c :: "evp_outcome \<Rightarrow> int \<Rightarrow> bytes \<Rightarrow> hash_error + bytes" where
  "git_object_hash_c evp type content =
     (case (if type = 1 then Some ''commit''
            else if type = 2 then Some ''tree''
            else if type = 3 then Some ''blob''
            else if type = 4 then Some ''tag''
            else None) of
        None \<Rightarrow> Inl (InvalidObjectType type)
      | Some type_name \<Rightarrow>
          (let content_len = c_int_of_size (length content);
               header = type_name @ '' '' @ printf_d content_len @ [CHR 0x00]
           in if evp = EVP_CTX_NEW_FAILED then Inl EvpCtxAllocFailed
              else if evp = EVP_DIGEST_FAILED then Inl Sha1ComputationFailed
              else Inr (take 20 (SHA1 (header @ take (nat content_len) content)))))"

section \<open>Tree entry parser (\<open>ext/tree_parse.c\<close>)\<close>

text \<open>
  All three failures are raised with \<open>ERRCODE_DATA_CORRUPTED\<close>; the constructors keep the
  three messages apart.
\<close>

datatype tree_error =
    NoSpaceFound         \<comment> \<open>"malformed tree entry: no space found"\<close>
  | NoNullTerminator     \<comment> \<open>"malformed tree entry: no null terminator found"\<close>
  | TruncatedOid         \<comment> \<open>"malformed tree entry: truncated OID"\<close>

record tree_entry =
  entry_mode :: string
  entry_name :: string
  entry_oid :: bytes

text \<open>
  \<open>while (p < state->len && state->data[p] != c) p++;\<close>
\<close>

function scan_for :: "char \<Rightarrow> bytes \<Rightarrow> nat \<Rightarrow> nat" where
  "scan_for c data p =
     (if p < length data \<and> data ! p \<noteq> c then scan_for c data (p + 1) else p)"
  by pat_completeness auto
termination
  by (relation "measure (\<lambda>(c, data, p). length data - p)") auto

declare scan_for.simps [simp del]

text \<open>
  One call of the set-returning function with \<open>state->pos < state->len\<close>: either an
  \<open>ereport(ERROR)\<close>, or the row and the new \<open>state->pos\<close>.  Positions are C \<open>int\<close>s; a
  \<open>bytea\<close> is shorter than \<open>2^30\<close> bytes, so \<open>null_pos + 21\<close> does not overflow and natural
  numbers model them.  The mode and the name are copied with a terminating NUL and handed to
  \<open>CStringGetTextDatum\<close>, which reads them as C strings.
\<close>

definition tree_entry_at :: "bytes \<Rightarrow> nat \<Rightarrow> tree_error + (tree_entry \<times> nat)" where
  "tree_entry_at data pos =
     (let len = length data;
          space_pos = scan_for (CHR '' '') data pos
      in if space_pos \<ge> len then Inl NoSpaceFound
         else
           (let null_pos = scan_for (CHR 0x00) data (space_pos + 1)
            in if null_pos \<ge> len then Inl NoNullTerminator
               else if null_pos + 20 \<ge> len \<and> null_pos + 21 > len then Inl TruncatedOid
               else Inr (\<lparr> entry_mode = cstr (take (space_pos - pos) (drop pos data)),
                            entry_name = cstr (take (null_pos - space_pos - 1) (drop (space_pos + 1) data)),
                            entry_oid = take 20 (drop (null_pos + 1) data) \<rparr>,
                         null_pos + 21)))"

text \<open>
  The calls of the set-returning function, from \<open>state->pos = pos\<close> until
  \<open>SRF_RETURN_DONE\<close>.  An error aborts the statement, so no rows are returned then.
\<close>

function tree_entries_from :: "bytes \<Rightarrow> nat \<Rightarrow> tree_error + tree_entry list" where
  "tree_entries_from data pos =
     (if pos < length data then
        (case tree_entry_at data pos of
           Inl e \<Rightarrow> Inl e
         | Inr r \<Rightarrow>
             (case tree_entries_from data (snd r) of
                Inl e \<Rightarrow> Inl e
              | Inr es \<Rightarrow> Inr (fst r # es)))
      else Inr [])"
  by pat_completeness auto
termination
proof (relation "measure (\<lambda>(data, pos). length data - pos)")
  show "wf (measure (\<lambda>(data, pos). length data - pos))"
    by simp
next
  fix data :: bytes and pos :: nat and r :: "tree_entry \<times> nat"
  assume lt: "pos < length data" and ok: "tree_entry_at data pos = Inr r"
  have ge: "p \<le> scan_for c data p" for c p
  proof (induction c data p rule: scan_for.induct)
    case (1 c data p)
    then show ?case
      by (subst scan_for.simps) (auto simp add: Suc_leD)
  qed
  have "pos \<le> scan_for (CHR '' '') data pos"
    by (rule ge)
  moreover have "scan_for (CHR '' '') data pos + 1
                   \<le> scan_for (CHR 0x00) data (scan_for (CHR '' '') data pos + 1)"
    by (rule ge)
  moreover have "snd r = scan_for (CHR 0x00) data (scan_for (CHR '' '') data pos + 1) + 21"
    using ok by (auto simp add: tree_entry_at_def Let_def split: if_splits)
  ultimately have "pos < snd r"
    by simp
  then show "((data, snd r), (data, pos)) \<in> measure (\<lambda>(data, pos). length data - pos)"
    using lt by simp
qed

declare tree_entries_from.simps [simp del]

definition git_tree_entries_c :: "bytes \<Rightarrow> tree_error + tree_entry list" where
  "git_tree_entries_c content = tree_entries_from content 0"


section \<open>The database tables (\<open>sql/schema.sql\<close>) and libgit2's return codes\<close>

text \<open>
  The return codes of libgit2 that the backends use: \<open>0\<close>, \<open>-1\<close>, \<open>GIT_ENOTFOUND\<close>,
  \<open>GIT_EEXISTS\<close> and \<open>GIT_EAMBIGUOUS\<close>.
\<close>

datatype git_rc = GIT_OK | GIT_ERROR | GIT_ENOTFOUND | GIT_EEXISTS | GIT_EAMBIGUOUS

text \<open>
  \<open>objects(repo_id integer, oid bytea, type smallint, size integer, content bytea,
  PRIMARY KEY (repo_id, oid))\<close>.
\<close>

record object_row =
  o_repo_id :: int
  o_oid :: bytes
  o_type :: int
  o_size :: int
  o_content :: bytes

definition objects_pkey :: "object_row list \<Rightarrow> bool" where
  "objects_pkey objects \<longleftrightarrow> distinct (map (\<lambda>r. (o_repo_id r, o_oid r)) objects)"

text \<open>
  \<open>refs(repo_id integer, name text, oid bytea, symbolic text, PRIMARY KEY (repo_id, name),
  CHECK ((oid IS NOT NULL) != (symbolic IS NOT NULL)))\<close>; \<open>None\<close> is SQL's NULL.
\<close>

record ref_row =
  ref_repo_id :: int
  ref_name :: string
  ref_oid :: "bytes option"
  ref_symbolic :: "string option"

definition refs_check :: "ref_row \<Rightarrow> bool" where
  "refs_check r \<longleftrightarrow> (ref_oid r \<noteq> None) \<noteq> (ref_symbolic r \<noteq> None)"

text \<open>
  \<open>reflog\<close>, without the columns the database fills in itself (\<open>id\<close>, \<open>created_at\<close>).
\<close>

record reflog_row =
  log_repo_id :: int
  log_ref_name :: string
  log_old_oid :: "bytes option"
  log_new_oid :: "bytes option"
  log_committer :: string
  log_timestamp_s :: int
  log_tz_offset :: string
  log_message :: "string option"

record refdb =
  refs :: "ref_row list"
  reflog :: "reflog_row list"

text \<open>
  A statement can fail in the database for reasons the tables do not show (a lost
  connection, a foreign key, a timeout).  The backends test \<open>PQresultStatus\<close> after most
  statements; \<open>failed\<close> says which statements of a call come back with an error status.
\<close>

datatype sql_stmt =
    Begin | Commit | AdvisoryLock
  | SelectForUpdate | SelectExists | SelectRef
  | UpsertRef | DeleteRef | UpdateRefName
  | InsertReflog | DeleteReflog | UpdateReflogName
  | AllocReference

section \<open>Object-DB backend (\<open>backend/odb_postgres.c\<close>)\<close>

text \<open>
  \<open>SELECT ... FROM objects WHERE repo_id=$1 AND oid=$2\<close>.  A \<open>git_oid\<close> holds 20 bytes and all
  of them are sent as \<open>$2\<close>.
\<close>

definition select_object :: "object_row list \<Rightarrow> int \<Rightarrow> bytes \<Rightarrow> object_row list" where
  "select_object objects repo_id oid =
     filter (\<lambda>r. o_repo_id r = repo_id \<and> o_oid r = oid) objects"

text \<open>
  \<open>... WHERE repo_id=$1 AND substring(oid from 1 for $2) = $3\<close>, where \<open>$2\<close> is \<open>byte_len\<close>
  and \<open>$3\<close> the first \<open>byte_len\<close> bytes of \<open>short_oid->id\<close>.
\<close>

definition select_object_prefix :: "object_row list \<Rightarrow> int \<Rightarrow> nat \<Rightarrow> bytes \<Rightarrow> object_row list" where
  "select_object_prefix objects repo_id byte_len short_oid =
     filter (\<lambda>r. o_repo_id r = repo_id \<and> take byte_len (o_oid r) = take byte_len short_oid)
       objects"

text \<open>
  \<open>(size_t) size_val\<close> for the \<open>int32_t\<close> read from the \<open>size\<close> column.
\<close>

definition size_t_of_int32 :: "int \<Rightarrow> nat" where
  "size_t_of_int32 v = nat (v mod 2 ^ 64)"

text \<open>
  \<open>pg_odb_read\<close> gives \<open>(data, len, type)\<close>.  \<open>query_failed\<close>: the result status is not
  \<open>PGRES_TUPLES_OK\<close>; \<open>alloc_failed\<close>: \<open>git_odb_backend_data_alloc\<close> returned NULL.
\<close>

definition pg_odb_read ::
  "bool \<Rightarrow> bool \<Rightarrow> object_row list \<Rightarrow> int \<Rightarrow> bytes \<Rightarrow> git_rc + (bytes \<times> nat \<times> int)" where
  "pg_odb_read query_failed alloc_failed objects repo_id oid =
     (if query_failed then Inl GIT_ERROR
      else (case select_object objects repo_id oid of
              [] \<Rightarrow> Inl GIT_ENOTFOUND
            | row # _ \<Rightarrow>
                if alloc_failed then Inl GIT_ERROR
                else Inr (o_content row, size_t_of_int32 (o_size row), o_type row)))"

text \<open>
  \<open>pg_odb_read_prefix\<close> gives \<open>(out_oid, data, len, type)\<close>.  \<open>out_oid\<close> is an output
  parameter: \<open>Some oid\<close> when the function stored \<open>oid\<close> into it, \<open>None\<close> when it returned
  without writing it.  The full-length case returns what \<open>pg_odb_read\<close> returns, and
  \<open>pg_odb_read\<close> has no \<open>out_oid\<close> parameter.
\<close>

definition pg_odb_read_prefix ::
  "bool \<Rightarrow> bool \<Rightarrow> object_row list \<Rightarrow> int \<Rightarrow> bytes \<Rightarrow> nat
     \<Rightarrow> git_rc + (bytes option \<times> bytes \<times> nat \<times> int)" where
  "pg_odb_read_prefix query_failed alloc_failed objects repo_id short_oid prefix_len =
     (if prefix_len = 40 then
        (case pg_odb_read query_failed alloc_failed objects repo_id short_oid of
           Inl rc \<Rightarrow> Inl rc
         | Inr (data, len, type) \<Rightarrow> Inr (None, data, len, type))
      else
        (let byte_len = (prefix_len + 1) div 2 in
         if query_failed then Inl GIT_ERROR
         else (case select_object_prefix objects repo_id byte_len short_oid of
                 [] \<Rightarrow> Inl GIT_ENOTFOUND
               | [row] \<Rightarrow>
                   if alloc_failed then Inl GIT_ERROR
                   else Inr (Some (take 20 (o_oid row)), o_content row,
                             size_t_of_int32 (o_size row), o_type row)
               | _ # _ # _ \<Rightarrow> Inl GIT_EAMBIGUOUS)))"

text \<open>
  \<open>INSERT INTO objects ... ON CONFLICT (repo_id, oid) DO NOTHING\<close>.
\<close>

definition insert_object_do_nothing :: "object_row list \<Rightarrow> object_row \<Rightarrow> object_row list" where
  "insert_object_do_nothing objects row =
     (if \<exists>r\<in>set objects. o_repo_id r = o_repo_id row \<and> o_oid r = o_oid row
      then objects else objects @ [row])"

text \<open>
  \<open>pg_odb_write\<close>: \<open>type\<close> is sent as \<open>int16\<close>, \<open>len\<close> as a 32-bit integer, and \<open>len\<close> bytes
  of \<open>data\<close> as the content.
\<close>

definition pg_odb_write ::
  "bool \<Rightarrow> object_row list \<Rightarrow> int \<Rightarrow> bytes \<Rightarrow> bytes \<Rightarrow> int \<Rightarrow> git_rc \<times> object_row list" where
  "pg_odb_write query_failed objects repo_id oid data type =
     (if query_failed then (GIT_ERROR, objects)
      else (GIT_OK,
            insert_object_do_nothing objects
              \<lparr> o_repo_id = repo_id, o_oid = oid, o_type = type,
                o_size = c_int_of_size (length data), o_content = data \<rparr>))"

text \<open>
  \<open>pg_odb_exists\<close> returns 1 or 0.
\<close>

definition pg_odb_exists :: "bool \<Rightarrow> object_row list \<Rightarrow> int \<Rightarrow> bytes \<Rightarrow> int" where
  "pg_odb_exists query_failed objects repo_id oid =
     (if query_failed then 0
      else if length (select_object objects repo_id oid) > 0 then 1 else 0)"

definition pg_odb_exists_prefix ::
  "bool \<Rightarrow> object_row list \<Rightarrow> int \<Rightarrow> bytes \<Rightarrow> nat \<Rightarrow> git_rc + bytes" where
  "pg_odb_exists_prefix query_failed objects repo_id short_oid prefix_len =
     (if prefix_len = 40 then
        (if pg_odb_exists query_failed objects repo_id short_oid = 0 then Inl GIT_ENOTFOUND
         else Inr short_oid)
      else
        (let byte_len = (prefix_len + 1) div 2 in
         if query_failed then Inl GIT_ERROR
         else (case select_object_prefix objects repo_id byte_len short_oid of
                 [] \<Rightarrow> Inl GIT_ENOTFOUND
               | [row] \<Rightarrow> Inr (take 20 (o_oid row))
               | _ # _ # _ \<Rightarrow> Inl GIT_EAMBIGUOUS)))"

section \<open>SQL object functions (\<open>sql/functions/object_hash.sql\<close>, \<open>object_read_write.sql\<close>)\<close>

definition git_type_name :: "int \<Rightarrow> string option" where
  "git_type_name obj_type =
     (if obj_type = 1 then Some ''commit''
      else if obj_type = 2 then Some ''tree''
      else if obj_type = 3 then Some ''blob''
      else if obj_type = 4 then Some ''tag''
      else None)"

text \<open>
  \<open>git_object_hash\<close>: a NULL type name makes the concatenation, and so the digest, NULL.
\<close>

definition git_object_hash :: "int \<Rightarrow> bytes \<Rightarrow> bytes option" where
  "git_object_hash obj_type content =
     (case git_type_name obj_type of
        None \<Rightarrow> None
      | Some type_name \<Rightarrow>
          Some (SHA1 (type_name @ '' '' @ printf_d (int (length content)) @ [CHR 0x00] @ content)))"

datatype sql_error = NotNullViolation

text \<open>
  \<open>git_object_write\<close>: the hash, the insert and the returned OID.  \<open>objects.oid\<close> is
  \<open>NOT NULL\<close>, so a NULL hash makes the insert, and the function, fail.
\<close>

definition git_object_write ::
  "object_row list \<Rightarrow> int \<Rightarrow> int \<Rightarrow> bytes \<Rightarrow> (sql_error + bytes) \<times> object_row list" where
  "git_object_write objects p_repo_id p_type p_content =
     (case git_object_hash p_type p_content of
        None \<Rightarrow> (Inl NotNullViolation, objects)
      | Some v_oid \<Rightarrow>
          (Inr v_oid,
           insert_object_do_nothing objects
             \<lparr> o_repo_id = p_repo_id, o_oid = v_oid, o_type = p_type,
               o_size = int (length p_content), o_content = p_content \<rparr>))"

section \<open>Ref-DB backend (\<open>backend/refdb_postgres.c\<close>)\<close>

text \<open>
  A \<open>git_reference\<close> as the backend reads it: \<open>git_reference__alloc\<close> makes a direct
  reference with a 20-byte target, \<open>git_reference__alloc_symbolic\<close> a symbolic one.
\<close>

datatype git_reference =
    Direct string bytes
  | Symbolic string string

fun git_reference_name :: "git_reference \<Rightarrow> string" where
  "git_reference_name (Direct ref_nm oid) = ref_nm"
| "git_reference_name (Symbolic ref_nm target) = ref_nm"

record git_signature =
  sig_name :: string
  sig_email :: string
  sig_time :: int
  sig_offset :: int

record pg_ref_lock =
  lock_key :: int
  lock_refname :: string

text \<open>
  \<open>hash_refname\<close>: FNV-1a over the four bytes of \<open>repo_id\<close> and the bytes of the name, in
  64-bit unsigned arithmetic, returned as \<open>int64_t\<close>.
\<close>

definition hash_refname :: "int \<Rightarrow> string \<Rightarrow> int" where
  "hash_refname repo_id refname =
     sint (fold (\<lambda>b h. (h XOR word_of_int b) * 1099511628211)
             ([drop_bit 24 repo_id AND 0xff, drop_bit 16 repo_id AND 0xff,
               drop_bit 8 repo_id AND 0xff, repo_id AND 0xff]
              @ map of_char (cstr refname))
             (14695981039346656037 :: 64 word))"

subsection \<open>The statements on \<open>refs\<close> and \<open>reflog\<close>\<close>

text \<open>
  \<open>SELECT ... FROM refs WHERE repo_id = $1 AND name = $2\<close>.
\<close>

definition select_ref :: "ref_row list \<Rightarrow> int \<Rightarrow> string \<Rightarrow> ref_row list" where
  "select_ref tbl repo_id ref_nm =
     filter (\<lambda>r. ref_repo_id r = repo_id \<and> ref_name r = ref_nm) tbl"

text \<open>
  \<open>INSERT INTO refs (repo_id, name, oid, symbolic) VALUES (...) ON CONFLICT (repo_id, name)
  DO UPDATE SET oid = ..., symbolic = ...\<close>.  The table's \<open>CHECK\<close> refuses a row that does
  not have exactly one of the two columns; \<open>None\<close> is the failed statement.
\<close>

definition upsert_ref :: "ref_row list \<Rightarrow> ref_row \<Rightarrow> ref_row list option" where
  "upsert_ref tbl row =
     (if \<not> refs_check row then None
      else if \<exists>r\<in>set tbl. ref_repo_id r = ref_repo_id row \<and> ref_name r = ref_name row
      then Some (map (\<lambda>r. if ref_repo_id r = ref_repo_id row \<and> ref_name r = ref_name row
                          then r\<lparr> ref_oid := ref_oid row, ref_symbolic := ref_symbolic row \<rparr>
                          else r) tbl)
      else Some (tbl @ [row]))"





text \<open>
  The row that a reference is stored as: a direct reference sends its 20 bytes as \<open>oid\<close>
  and NULL as \<open>symbolic\<close>, any other reference sends NULL as \<open>oid\<close> and its target as
  \<open>symbolic\<close>.
\<close>

fun row_of_reference :: "int \<Rightarrow> git_reference \<Rightarrow> ref_row" where
  "row_of_reference repo_id (Direct ref_nm oid) =
     \<lparr> ref_repo_id = repo_id, ref_name = ref_nm, ref_oid = Some oid, ref_symbolic = None \<rparr>"
| "row_of_reference repo_id (Symbolic ref_nm target) =
     \<lparr> ref_repo_id = repo_id, ref_name = ref_nm, ref_oid = None, ref_symbolic = Some target \<rparr>"

fun direct_target :: "git_reference \<Rightarrow> bytes option" where
  "direct_target (Direct ref_nm oid) = Some oid"
| "direct_target (Symbolic ref_nm target) = None"

subsection \<open>\<open>write_reflog_entry\<close>\<close>

text \<open>
  \<open>%02d\<close>, and \<open>git_oid_is_zero\<close>.
\<close>

definition printf_02d :: "int \<Rightarrow> string" where
  "printf_02d k = (if length (printf_d k) < 2 then CHR ''0'' # printf_d k else printf_d k)"

definition git_oid_is_zero :: "bytes \<Rightarrow> bool" where
  "git_oid_is_zero oid \<longleftrightarrow> list_all (\<lambda>b. b = CHR 0x00) oid"

definition oid_param :: "bytes option \<Rightarrow> bytes option" where
  "oid_param oid =
     (case oid of
        None \<Rightarrow> None
      | Some v \<Rightarrow> if git_oid_is_zero v then None else Some v)"

text \<open>
  The row sent to \<open>INSERT INTO reflog\<close>: \<open>committer\<close> is \<open>"%s <%s>"\<close> in a buffer of 512
  bytes, \<open>tz\<close> is \<open>"%c%02d%02d"\<close> in a buffer of 8 bytes.
\<close>

definition reflog_entry ::
  "int \<Rightarrow> string \<Rightarrow> bytes option \<Rightarrow> bytes option \<Rightarrow> git_signature \<Rightarrow> string option
     \<Rightarrow> reflog_row" where
  "reflog_entry repo_id ref_nm old_oid new_oid who message =
     \<lparr> log_repo_id = repo_id,
       log_ref_name = ref_nm,
       log_old_oid = oid_param old_oid,
       log_new_oid = oid_param new_oid,
       log_committer = take 511 (sig_name who @ '' <'' @ sig_email who @ ''>''),
       log_timestamp_s = sig_time who,
       log_tz_offset =
         take 7 ((if sig_offset who \<ge> 0 then ''+'' else ''-'')
                 @ printf_02d (\<bar>sig_offset who\<bar> div 60) @ printf_02d (\<bar>sig_offset who\<bar> mod 60)),
       log_message = message \<rparr>"

text \<open>
  \<open>write_reflog_entry\<close> inside a transaction whose tables are \<open>tx\<close>: \<open>None\<close> is the return
  value \<open>-1\<close>.
\<close>

definition write_reflog_entry ::
  "(sql_stmt \<Rightarrow> bool) \<Rightarrow> int \<Rightarrow> refdb \<Rightarrow> string \<Rightarrow> bytes option \<Rightarrow> bytes option
     \<Rightarrow> git_signature option \<Rightarrow> string option \<Rightarrow> refdb option" where
  "write_reflog_entry failed repo_id tx ref_nm old_oid new_oid who message =
     (case who of
        None \<Rightarrow> Some tx
      | Some w \<Rightarrow>
          if failed InsertReflog then None
          else Some (tx\<lparr> reflog := reflog tx
                        @ [reflog_entry repo_id ref_nm old_oid new_oid w message] \<rparr>))"

subsection \<open>\<open>pg_refdb_write\<close>\<close>

text \<open>
  The compare-and-swap test of \<open>pg_refdb_write\<close> on the rows \<open>sel\<close> that
  \<open>SELECT oid, symbolic ... FOR UPDATE\<close> returned: the return code of the branch that
  leaves the function, or \<open>GIT_OK\<close> when the write goes on.  \<open>old\<close> is a \<open>git_oid\<close>, whose
  20 bytes are compared with \<open>memcmp\<close>.
\<close>

definition write_cas_check :: "ref_row list \<Rightarrow> bytes option \<Rightarrow> string option \<Rightarrow> git_rc" where
  "write_cas_check sel old old_target =
     (if old \<noteq> None \<or> old_target \<noteq> None then
        (case sel of
           [] \<Rightarrow> GIT_ENOTFOUND
         | row # _ \<Rightarrow>
             (let old_rc =
                    (case old of
                       None \<Rightarrow> GIT_OK
                     | Some expected \<Rightarrow>
                         (case ref_oid row of
                            None \<Rightarrow> GIT_ERROR
                          | Some cur \<Rightarrow>
                              if length cur \<noteq> 20 \<or> cur \<noteq> take 20 expected
                              then GIT_EEXISTS else GIT_OK))
              in if old_rc \<noteq> GIT_OK then old_rc
                 else (case old_target of
                         None \<Rightarrow> GIT_OK
                       | Some expected \<Rightarrow>
                           (case ref_symbolic row of
                              None \<Rightarrow> GIT_ERROR
                            | Some cur \<Rightarrow>
                                if cur \<noteq> expected then GIT_EEXISTS else GIT_OK))))
      else (if sel \<noteq> [] then GIT_EEXISTS else GIT_OK))"

text \<open>
  \<open>pg_refdb_write\<close> on the committed tables \<open>db\<close>.  Every branch that returns an error
  after \<open>BEGIN\<close> runs \<open>ROLLBACK\<close> first, so it leaves \<open>db\<close>; \<open>COMMIT\<close> installs the tables
  of the transaction.
\<close>

definition pg_refdb_write ::
  "(sql_stmt \<Rightarrow> bool) \<Rightarrow> int \<Rightarrow> refdb \<Rightarrow> git_reference \<Rightarrow> bool \<Rightarrow> git_signature option
     \<Rightarrow> string option \<Rightarrow> bytes option \<Rightarrow> string option \<Rightarrow> git_rc \<times> refdb" where
  "pg_refdb_write failed repo_id db ref force who message old old_target =
     (if failed Begin then (GIT_ERROR, db)
      else
        (let cas_rc =
               (if force then GIT_OK
                else if failed SelectForUpdate then GIT_ERROR
                else write_cas_check (select_ref (refs db) repo_id (git_reference_name ref))
                       old old_target)
         in if cas_rc \<noteq> GIT_OK then (cas_rc, db)
            else
              (case (if failed UpsertRef then None
                     else upsert_ref (refs db) (row_of_reference repo_id ref)) of
                 None \<Rightarrow> (GIT_ERROR, db)
               | Some refs' \<Rightarrow>
                   (case write_reflog_entry failed repo_id (db\<lparr> refs := refs' \<rparr>)
                           (git_reference_name ref) old (direct_target ref) who message of
                      None \<Rightarrow> (GIT_ERROR, db)
                    | Some tx \<Rightarrow>
                        if failed Commit then (GIT_ERROR, db) else (GIT_OK, tx)))))"

subsection \<open>\<open>pg_refdb_rename\<close>\<close>



subsection \<open>\<open>pg_refdb_del\<close>\<close>



subsection \<open>\<open>pg_refdb_lock\<close> and \<open>pg_refdb_unlock\<close>\<close>

text \<open>
  \<open>pg_refdb_lock\<close> opens a transaction and takes the advisory lock; it gives the payload
  and the tables of the open transaction, which start as the committed ones.
\<close>

definition pg_refdb_lock ::
  "(sql_stmt \<Rightarrow> bool) \<Rightarrow> int \<Rightarrow> refdb \<Rightarrow> string \<Rightarrow> git_rc + (pg_ref_lock \<times> refdb)" where
  "pg_refdb_lock failed repo_id db refname =
     (if failed Begin then Inl GIT_ERROR
      else if failed AdvisoryLock then Inl GIT_ERROR
      else Inr (\<lparr> lock_key = hash_refname repo_id refname, lock_refname = cstr refname \<rparr>, db))"



section \<open>Remote helper: \<open>list\<close> (\<open>backend/remote_helper.c\<close>)\<close>

text \<open>
  A row of \<open>SELECT name, encode(oid, 'hex'), symbolic FROM refs WHERE repo_id = $1 ORDER BY
  name\<close>, in text format: the name, the hex text of the OID or NULL, the symbolic target or
  NULL.  \<open>PQgetvalue\<close> gives the empty string for a NULL.
\<close>

record list_row =
  lr_name :: string
  lr_oid_hex :: "string option"
  lr_symbolic :: "string option"

definition PQgetvalue :: "string option \<Rightarrow> string" where
  "PQgetvalue field = (case field of None \<Rightarrow> [] | Some v \<Rightarrow> v)"

text \<open>
  The first loop of \<open>cmd_list\<close>.  Its state is what has been printed so far, \<open>head_oid\<close>
  and \<open>head_symbolic\<close> (\<open>None\<close> is the NULL pointer).
\<close>

fun cmd_list_loop ::
  "list_row list \<Rightarrow> string \<times> string option \<times> string option
     \<Rightarrow> string \<times> string option \<times> string option" where
  "cmd_list_loop [] (out, head_oid, head_symbolic) = (out, head_oid, head_symbolic)"
| "cmd_list_loop (row # rows) (out, head_oid, head_symbolic) =
     (if lr_name row = ''HEAD'' then
        (if lr_symbolic row \<noteq> None \<and> length (PQgetvalue (lr_symbolic row)) > 0
         then cmd_list_loop rows (out, head_oid, Some (PQgetvalue (lr_symbolic row)))
         else if lr_oid_hex row \<noteq> None \<and> length (PQgetvalue (lr_oid_hex row)) > 0
         then cmd_list_loop rows (out, Some (PQgetvalue (lr_oid_hex row)), head_symbolic)
         else cmd_list_loop rows (out, head_oid, head_symbolic))
      else if lr_oid_hex row \<noteq> None \<and> length (PQgetvalue (lr_oid_hex row)) > 0
      then cmd_list_loop rows
             (out @ PQgetvalue (lr_oid_hex row) @ '' '' @ lr_name row @ [CHR 0x0A],
              head_oid, head_symbolic)
      else cmd_list_loop rows (out, head_oid, head_symbolic))"

text \<open>
  The second loop: the first row named \<open>head_symbolic\<close> whose OID is not NULL sets
  \<open>head_oid\<close> and ends the loop.
\<close>

fun cmd_list_resolve :: "list_row list \<Rightarrow> string \<Rightarrow> string option \<Rightarrow> string option" where
  "cmd_list_resolve [] head_symbolic head_oid = head_oid"
| "cmd_list_resolve (row # rows) head_symbolic head_oid =
     (if lr_name row = head_symbolic \<and> lr_oid_hex row \<noteq> None
      then Some (PQgetvalue (lr_oid_hex row))
      else cmd_list_resolve rows head_symbolic head_oid)"

datatype helper_exit = Died

text \<open>
  \<open>cmd_list\<close>: \<open>res\<close> is \<open>None\<close> when the query failed (the helper dies), else the rows.
  The result is what is written to standard output; the \<open>debug\<close> lines go elsewhere.
\<close>

definition cmd_list :: "list_row list option \<Rightarrow> helper_exit + string" where
  "cmd_list res =
     (case res of
        None \<Rightarrow> Inl Died
      | Some rows \<Rightarrow>
          (case cmd_list_loop rows ([], None, None) of
             (out, head_oid, head_symbolic) \<Rightarrow>
               Inr (out
                    @ (case head_symbolic of
                         Some target \<Rightarrow>
                           (case cmd_list_resolve rows target head_oid of
                              Some oid \<Rightarrow> ''@'' @ target @ '' HEAD'' @ [CHR 0x0A]
                            | None \<Rightarrow> [])
                       | None \<Rightarrow>
                           (case head_oid of
                              Some oid \<Rightarrow> oid @ '' HEAD'' @ [CHR 0x0A]
                            | None \<Rightarrow> []))
                    @ [CHR 0x0A])))"

text \<open>
  What the first loop does to \<open>(head_oid, head_symbolic)\<close> at a row named \<open>HEAD\<close>.
\<close>

definition head_state :: "list_row \<Rightarrow> string option \<times> string option \<Rightarrow> string option \<times> string option" where
  "head_state h st =
     (if lr_symbolic h \<noteq> None \<and> length (PQgetvalue (lr_symbolic h)) > 0
      then (fst st, Some (PQgetvalue (lr_symbolic h)))
      else if lr_oid_hex h \<noteq> None \<and> length (PQgetvalue (lr_oid_hex h)) > 0
      then (Some (PQgetvalue (lr_oid_hex h)), snd st)
      else st)"

text \<open>
  The result sets that a refs table can give: names are unique within a repository, each
  row has exactly one of the two values, an OID is not empty (its hex text is 40
  characters) and a symbolic target is not the empty name.
\<close>

definition list_rows_wf :: "list_row list \<Rightarrow> bool" where
  "list_rows_wf rows \<longleftrightarrow>
     distinct (map lr_name rows)
     \<and> (\<forall>r\<in>set rows. (lr_oid_hex r \<noteq> None) \<noteq> (lr_symbolic r \<noteq> None))
     \<and> (\<forall>r\<in>set rows. lr_oid_hex r \<noteq> Some [] \<and> lr_symbolic r \<noteq> Some [])"

text \<open>
  The line of a direct ref, and the \<open>HEAD\<close> line that the listing should end with.
\<close>

definition ref_line :: "list_row \<Rightarrow> string" where
  "ref_line r = the (lr_oid_hex r) @ '' '' @ lr_name r @ [CHR 0x0A]"

definition head_line :: "list_row list \<Rightarrow> string" where
  "head_line rows =
     (case find (\<lambda>r. lr_name r = ''HEAD'') rows of
        None \<Rightarrow> []
      | Some h \<Rightarrow>
          (case lr_symbolic h of
             Some target \<Rightarrow>
               if \<exists>r\<in>set rows. lr_name r = target \<and> lr_oid_hex r \<noteq> None
               then ''@'' @ target @ '' HEAD'' @ [CHR 0x0A] else []
           | None \<Rightarrow> the (lr_oid_hex h) @ '' HEAD'' @ [CHR 0x0A]))"
section \<open>Properties of the OID codec\<close>

lemma hex_to_nibble_digits:
  "\<forall>k\<in>set [0..<16]. hex_to_nibble (''0123456789abcdef'' ! k) = int k"
  by (simp add: eval_nat_numeral hex_to_nibble_def)

lemma mask4_int: "(15::int) = mask 4"
  by (simp add: mask_eq_exp_minus_1)

lemma nibble_range: "0 \<le> (n::int) AND 15 \<and> n AND 15 < 16"
  by simp

lemma nibble_and_idem: "((n::int) AND 15) AND 15 = n AND 15"
  by (simp add: and.assoc)

lemma hex_to_nibble_to_hex: "hex_to_nibble (nibble_to_hex n) = n AND 15"
proof -
  have "nat (n AND 15) \<in> set [0..<16]"
    using nibble_range [of n] by (simp add: nat_less_iff)
  then have "hex_to_nibble (''0123456789abcdef'' ! nat (n AND 15)) = int (nat (n AND 15))"
    using hex_to_nibble_digits by blast
  then show ?thesis
    by (simp add: nibble_to_hex_def)
qed

lemma nibble_to_hex_lower: "nibble_to_hex n \<in> set ''0123456789abcdef''"
proof -
  have "nat (n AND 15) < length ''0123456789abcdef''"
    using nibble_range [of n] by (simp add: nat_less_iff)
  then show ?thesis
    unfolding nibble_to_hex_def by (simp only: nth_mem)
qed

lemma nibbles_join: "push_bit 4 (drop_bit 4 n AND mask 4) OR (n AND mask 4) = take_bit 8 (n::int)"
  by (rule bit_eqI) (auto simp add: bit_simps)

lemma byte_of_nibbles:
  "char_of (push_bit 4 (drop_bit 4 (of_char c :: int) AND 15) OR (of_char c AND 15)) = c"
  by (simp only: mask4_int nibbles_join) (simp add: char_of_eq_iff take_bit_eq_mod)

lemma hex_pair_byte:
  "char_of (push_bit 4 (hex_to_nibble (nibble_to_hex (drop_bit 4 (of_char c))))
            OR hex_to_nibble (nibble_to_hex (of_char c AND 0xf))) = c"
  by (simp only: hex_to_nibble_to_hex nibble_and_idem byte_of_nibbles)

lemma hex_to_nibble_toupper: "hex_to_nibble (ascii_toupper c) = hex_to_nibble c"
  by (auto simp add: ascii_toupper_def hex_to_nibble_def)

lemma hex_to_nibble_tolower: "hex_to_nibble (ascii_tolower c) = hex_to_nibble c"
  by (auto simp add: ascii_tolower_def hex_to_nibble_def)

lemma toupper_nul: "ascii_toupper c = CHR 0x00 \<longleftrightarrow> c = CHR 0x00"
  by (auto simp add: ascii_toupper_def char_of_eq_iff take_bit_eq_mod)

lemma tolower_nul: "ascii_tolower c = CHR 0x00 \<longleftrightarrow> c = CHR 0x00"
  by (auto simp add: ascii_tolower_def char_of_eq_iff take_bit_eq_mod)

lemma hex_digit_iff: "c \<in> hex_digits \<longleftrightarrow> 0 \<le> hex_to_nibble c"
  by (cases c) (simp add: hex_digits_def hex_to_nibble_def)

lemma git_oid_in_loop_eq:
  "git_oid_in_loop str is =
     (if hex_pairs_ok str is then Inr (hex_pairs_bytes str is) else Inl InvalidHexChar)"
  by (induction "is") (auto simp add: Let_def hex_pairs_ok_def hex_pairs_bytes_def)

lemma git_oid_in_eq:
  "git_oid_in str =
     (if strlen str \<noteq> 40 then Inl NotFortyHexChars
      else if hex_pairs_ok str [0..<20] then Inr (hex_pairs_bytes str [0..<20])
      else Inl InvalidHexChar)"
  by (simp only: git_oid_in_def git_oid_in_loop_eq)

lemma length_hex_pairs_bytes: "length (hex_pairs_bytes str is) = length is"
  by (simp add: hex_pairs_bytes_def)

lemma cstr_prefix: "cstr buf = take (strlen buf) buf"
  unfolding cstr_def strlen_def by (rule takeWhile_eq_take)

lemma strlen_le: "strlen buf \<le> length buf"
  unfolding cstr_def strlen_def by (simp add: length_takeWhile_le)

lemma cstr_nth: "i < strlen buf \<Longrightarrow> cstr buf ! i = buf ! i"
  by (simp add: cstr_prefix)

lemma all_pairs_40: "(\<forall>i\<in>set [0..<20]. P (i * 2) \<and> P (i * 2 + 1)) \<longleftrightarrow> (\<forall>j<40. P j)"
proof
  assume l: "\<forall>i\<in>set [0..<20]. P (i * 2) \<and> P (i * 2 + 1)"
  show "\<forall>j<40. P j"
  proof (intro allI impI)
    fix j :: nat assume "j < 40"
    then have d: "j div 2 \<in> set [0..<20]" by auto
    show "P j"
    proof (cases "even j")
      case True
      then have "j = (j div 2) * 2" by auto
      then show ?thesis using l d by metis
    next
      case False
      then have "j = (j div 2) * 2 + 1" by presburger
      then show ?thesis using l d by metis
    qed
  qed
next
  assume "\<forall>j<40. P j"
  then show "\<forall>i\<in>set [0..<20]. P (i * 2) \<and> P (i * 2 + 1)" by auto
qed

lemma set_cstr_hex:
  assumes "strlen str = 40"
  shows "set (cstr str) \<subseteq> hex_digits \<longleftrightarrow> (\<forall>j<40. 0 \<le> hex_to_nibble (str ! j))"
proof -
  have "length (cstr str) = 40"
    using assms by (simp add: strlen_def)
  then have "set (cstr str) \<subseteq> hex_digits \<longleftrightarrow> (\<forall>j<40. cstr str ! j \<in> hex_digits)"
    by (auto simp add: subset_iff in_set_conv_nth)
  also have "\<dots> \<longleftrightarrow> (\<forall>j<40. 0 \<le> hex_to_nibble (str ! j))"
    using assms by (simp add: cstr_nth hex_digit_iff)
  finally show ?thesis .
qed

lemma hex_pairs_ok_40:
  "hex_pairs_ok str [0..<20] \<longleftrightarrow> (\<forall>j<40. 0 \<le> hex_to_nibble (str ! j))"
  unfolding hex_pairs_ok_def
  by (rule all_pairs_40 [of "\<lambda>j. 0 \<le> hex_to_nibble (str ! j)"])

lemma git_oid_in_accepts_iff:
  "(\<exists>oid. git_oid_in str = Inr oid) \<longleftrightarrow> strlen str = 40 \<and> set (cstr str) \<subseteq> hex_digits"
proof (cases "strlen str = 40")
  case False
  then show ?thesis by (simp add: git_oid_in_eq)
next
  case True
  then show ?thesis
    by (simp add: git_oid_in_eq set_cstr_hex hex_pairs_ok_40 [symmetric])
qed

lemma git_oid_in_length: "git_oid_in str = Inr oid \<Longrightarrow> length oid = 20"
  by (auto simp add: git_oid_in_eq length_hex_pairs_bytes split: if_splits)

lemma cstr_map:
  assumes "\<And>c. f c = CHR 0x00 \<longleftrightarrow> c = CHR 0x00"
  shows "cstr (map f buf) = map f (cstr buf)"
  unfolding cstr_def by (simp add: takeWhile_map comp_def assms)

lemma strlen_map:
  assumes "\<And>c. f c = CHR 0x00 \<longleftrightarrow> c = CHR 0x00"
  shows "strlen (map f buf) = strlen buf"
  by (simp add: strlen_def cstr_map [of f, OF assms])

lemma git_oid_in_map:
  assumes nul: "\<And>c. f c = CHR 0x00 \<longleftrightarrow> c = CHR 0x00"
    and nib: "\<And>c. hex_to_nibble (f c) = hex_to_nibble c"
  shows "git_oid_in (map f str) = git_oid_in str"
proof (cases "strlen str = 40")
  case False
  then show ?thesis by (simp add: git_oid_in_eq strlen_map [of f, OF nul])
next
  case True
  have len: "40 \<le> length str"
    using True strlen_le [of str] by simp
  have ok: "hex_pairs_ok (map f str) [0..<20] = hex_pairs_ok str [0..<20]"
    using len by (simp add: hex_pairs_ok_def nib)
  have bs: "hex_pairs_bytes (map f str) [0..<20] = hex_pairs_bytes str [0..<20]"
    using len by (simp add: hex_pairs_bytes_def nib)
  show ?thesis
    by (simp only: git_oid_in_eq strlen_map [of f, OF nul] ok bs)
qed

lemma concat_pairs_length: "length (concat (map (\<lambda>i. [f i, g i]) [0..<n])) = 2 * n"
  by (induction n) simp_all

lemma concat_pairs_nth:
  "i < n \<Longrightarrow> concat (map (\<lambda>i. [f i, g i]) [0..<n]) ! (i * 2) = f i
     \<and> concat (map (\<lambda>i. [f i, g i]) [0..<n]) ! (i * 2 + 1) = g i"
proof (induction n)
  case 0
  then show ?case by simp
next
  case (Suc n)
  show ?case
  proof (cases "i < n")
    case True
    then show ?thesis
      using Suc.IH by (simp add: nth_append concat_pairs_length)
  next
    case False
    then have "i = n" using Suc.prems by simp
    then show ?thesis
      by (simp add: nth_append concat_pairs_length mult.commute)
  qed
qed

lemma git_oid_out_length: "length (git_oid_out oid) = 40"
  by (simp add: git_oid_out_def concat_pairs_length)

lemma git_oid_out_lower: "set (git_oid_out oid) \<subseteq> set ''0123456789abcdef''"
  unfolding git_oid_out_def using nibble_to_hex_lower by auto

lemma git_oid_out_strlen: "strlen (git_oid_out oid) = 40"
proof -
  have "CHR 0x00 \<notin> set ''0123456789abcdef''" by simp
  then have "\<forall>c\<in>set (git_oid_out oid). c \<noteq> CHR 0x00"
    using git_oid_out_lower [of oid] by blast
  then have "cstr (git_oid_out oid) = git_oid_out oid"
    unfolding cstr_def by (simp only: takeWhile_eq_all_conv)
  then show ?thesis
    by (simp add: strlen_def git_oid_out_length)
qed

lemma git_oid_out_nth:
  "i < 20 \<Longrightarrow> git_oid_out oid ! (i * 2) = nibble_to_hex (drop_bit 4 (of_char (oid ! i)))
     \<and> git_oid_out oid ! (i * 2 + 1) = nibble_to_hex (of_char (oid ! i) AND 0xf)"
  unfolding git_oid_out_def by (rule concat_pairs_nth)

lemma git_oid_out_nth_Suc:
  "i < 20 \<Longrightarrow> git_oid_out oid ! Suc (i * 2) = nibble_to_hex (of_char (oid ! i) AND 0xf)"
  using git_oid_out_nth [of i oid] by simp

lemma git_oid_roundtrip:
  assumes "length oid = 20"
  shows "git_oid_in (git_oid_out oid) = Inr oid"
proof -
  have ok: "hex_pairs_ok (git_oid_out oid) [0..<20]"
    by (simp add: hex_pairs_ok_def git_oid_out_nth git_oid_out_nth_Suc hex_to_nibble_to_hex)
  have "hex_pairs_bytes (git_oid_out oid) [0..<20] = map (\<lambda>i. oid ! i) [0..<20]"
    unfolding hex_pairs_bytes_def
  proof (rule map_cong)
    fix i assume "i \<in> set [0..<20]"
    then have "i < 20" by simp
    then show "char_of (push_bit 4 (hex_to_nibble (git_oid_out oid ! (i * 2)))
                 OR hex_to_nibble (git_oid_out oid ! (i * 2 + 1))) = oid ! i"
      by (simp only: git_oid_out_nth hex_pair_byte)
  qed simp
  also have "\<dots> = oid"
    using assms by (metis map_nth)
  finally show ?thesis
    by (simp add: git_oid_in_eq git_oid_out_strlen ok)
qed

text \<open>
  Claim C7.  \<open>git_oid_in\<close> rejects exactly the C strings whose length is not 40 or which
  hold a character outside \<open>[0-9a-fA-F]\<close>, and an accepted string gives 20 bytes; folding
  the case of the input does not change the result; \<open>git_oid_out\<close> always produces 40
  characters of lowercase hex; and \<open>git_oid_in (git_oid_out oid) = oid\<close> for every 20-byte
  OID.
\<close>

theorem git_oid_codec:
  "((strlen str \<noteq> 40 \<or> (\<exists>c\<in>set (cstr str). c \<notin> hex_digits)) \<longrightarrow> (\<exists>e. git_oid_in str = Inl e))
   \<and> ((strlen str = 40 \<and> (\<forall>c\<in>set (cstr str). c \<in> hex_digits))
        \<longrightarrow> (\<exists>oid. git_oid_in str = Inr oid \<and> length oid = 20))
   \<and> git_oid_in (map ascii_toupper str) = git_oid_in str
   \<and> git_oid_in (map ascii_tolower str) = git_oid_in str
   \<and> length (git_oid_out oid) = 40
   \<and> set (git_oid_out oid) \<subseteq> set ''0123456789abcdef''
   \<and> (length oid = 20 \<longrightarrow> git_oid_in (git_oid_out oid) = Inr oid)"
proof (intro conjI impI)
  assume "strlen str \<noteq> 40 \<or> (\<exists>c\<in>set (cstr str). c \<notin> hex_digits)"
  then have "\<not> (\<exists>oid. git_oid_in str = Inr oid)"
    by (auto simp add: git_oid_in_accepts_iff)
  then show "\<exists>e. git_oid_in str = Inl e"
    by (cases "git_oid_in str") auto
next
  assume "strlen str = 40 \<and> (\<forall>c\<in>set (cstr str). c \<in> hex_digits)"
  then have "\<exists>oid. git_oid_in str = Inr oid"
    by (auto simp add: git_oid_in_accepts_iff)
  then show "\<exists>oid. git_oid_in str = Inr oid \<and> length oid = 20"
    using git_oid_in_length by blast
next
  show "git_oid_in (map ascii_toupper str) = git_oid_in str"
    by (rule git_oid_in_map) (simp_all add: toupper_nul hex_to_nibble_toupper)
next
  show "git_oid_in (map ascii_tolower str) = git_oid_in str"
    by (rule git_oid_in_map) (simp_all add: tolower_nul hex_to_nibble_tolower)
next
  show "length (git_oid_out oid) = 40"
    by (rule git_oid_out_length)
next
  show "set (git_oid_out oid) \<subseteq> set ''0123456789abcdef''"
    by (rule git_oid_out_lower)
next
  assume "length oid = 20"
  then show "git_oid_in (git_oid_out oid) = Inr oid"
    by (rule git_oid_roundtrip)
qed

theorem git_oid_codec_witness:
  "strlen ''b6fc4c62'' \<noteq> 40
   \<and> (\<exists>e. git_oid_in ''b6fc4c62'' = Inl e)
   \<and> strlen ''B6FC4C620b67d95f953a5c1c1230aaab5db5a1b0'' = 40
   \<and> set (cstr ''B6FC4C620b67d95f953a5c1c1230aaab5db5a1b0'') \<subseteq> hex_digits
   \<and> (\<exists>oid. git_oid_in ''B6FC4C620b67d95f953a5c1c1230aaab5db5a1b0'' = Inr oid \<and> length oid = 20)
   \<and> length ''0123456789abcdefghij'' = 20
   \<and> git_oid_in (git_oid_out ''0123456789abcdefghij'') = Inr ''0123456789abcdefghij''"
proof -
  have short: "strlen ''b6fc4c62'' \<noteq> 40"
    by (simp add: strlen_def cstr_def)
  have len: "strlen ''B6FC4C620b67d95f953a5c1c1230aaab5db5a1b0'' = 40"
    by (simp add: strlen_def cstr_def)
  have hex: "\<forall>c\<in>set (cstr ''B6FC4C620b67d95f953a5c1c1230aaab5db5a1b0''). c \<in> hex_digits"
    by (simp add: cstr_def hex_digits_def)
  have oid: "length ''0123456789abcdefghij'' = 20"
    by simp
  show ?thesis
    using git_oid_codec [of "''b6fc4c62''" "''0123456789abcdefghij''"]
      git_oid_codec [of "''B6FC4C620b67d95f953a5c1c1230aaab5db5a1b0''" "''0123456789abcdefghij''"]
      short len hex oid
    by blast
qed

section \<open>Properties of the object hasher\<close>

lemma replicate_numeral_unfold: "replicate (numeral k) x = x # replicate (pred_numeral k) x"
  by (simp add: numeral_eq_Suc)

lemma sha1_words_unfold:
  "sha1_words (numeral k) bs = be32 bs # sha1_words (pred_numeral k) (drop 4 bs)"
  by (simp add: numeral_eq_Suc)

lemma sha1_schedule_unfold:
  "sha1_schedule (numeral k) ws =
     sha1_schedule (pred_numeral k) (rotl32 1 (ws ! 2 XOR ws ! 7 XOR ws ! 13 XOR ws ! 15) # ws)"
  by (simp add: numeral_eq_Suc)

lemmas sha1_eval = SHA1_def sha1_pad_def be64_bytes_def be32_bytes_def replicate_numeral_unfold
  sha1_compress_def sha1_words_unfold be32_def sha1_schedule_unfold rotl32_def sha1_f_def
  sha1_k_def add32_def not32_def char_of_eq_iff

lemma sha1_blob_hello:
  "SHA1 (''blob 5'' @ [CHR 0x00] @ ''hello'') =
     [CHR 0xb6, CHR 0xfc, CHR 0x4c, CHR 0x62, CHR 0x0b, CHR 0x67, CHR 0xd9, CHR 0x5f, CHR 0x95, CHR 0x3a,
      CHR 0x5c, CHR 0x1c, CHR 0x12, CHR 0x30, CHR 0xaa, CHR 0xab, CHR 0x5d, CHR 0xb5, CHR 0xa1, CHR 0xb0]"
  by (simp add: sha1_eval)

lemma sha1_blob_empty:
  "SHA1 (''blob 0'' @ [CHR 0x00]) =
     [CHR 0xe6, CHR 0x9d, CHR 0xe2, CHR 0x9b, CHR 0xb2, CHR 0xd1, CHR 0xd6, CHR 0x43, CHR 0x4b, CHR 0x8b,
      CHR 0x29, CHR 0xae, CHR 0x77, CHR 0x5a, CHR 0xd8, CHR 0xc2, CHR 0xe4, CHR 0x8c, CHR 0x53, CHR 0x91]"
  by (simp add: sha1_eval)

lemma SHA1_length: "length (SHA1 m) = 20"
  by (cases "sha1_blocks (length (sha1_pad m) div 64)
       (0x67452301, 0xEFCDAB89, 0x98BADCFE, 0x10325476, 0xC3D2E1F0) (sha1_pad m)")
     (simp add: SHA1_def be32_bytes_def)

lemma c_int_of_size_id: "n < 2 ^ 31 \<Longrightarrow> c_int_of_size n = int n"
  by (simp add: c_int_of_size_def)

text \<open>
  \<open>dec_digits\<close> gives the decimal representation: digits only, denoting the number, with
  no leading zero.
\<close>

lemma dec_value_snoc: "dec_value (ds @ [c]) = 10 * dec_value ds + (of_char c - 48)"
  by (simp add: dec_value_def)

lemma dec_value_single: "dec_value [c] = of_char c - 48"
  by (simp add: dec_value_def)

lemma dec_digits_value: "dec_value (dec_digits n) = n"
proof (induction n rule: dec_digits.induct)
  case (1 n)
  show ?case
  proof (cases "n < 10")
    case True
    then have "of_char (char_of (48 + n) :: char) = 48 + n"
      by (simp add: of_char_of)
    then show ?thesis
      using True by (simp add: dec_digits.simps [of n] dec_value_single)
  next
    case False
    have "of_char (char_of (48 + n mod 10) :: char) = 48 + n mod 10"
      by (simp add: of_char_of) 
    then show ?thesis
      using False 1 by (simp add: dec_digits.simps [of n] dec_value_snoc)
  qed
qed

lemma dec_digits_digits: "set (dec_digits n) \<subseteq> set ''0123456789''"
proof (induction n rule: dec_digits.induct)
  case (1 n)
  have d: "char_of (48 + k) \<in> set ''0123456789''" if "k < 10" for k :: nat
  proof -
    from that have "k \<in> set [0..<10]" by simp
    then have "k \<in> {0,1,2,3,4,5,6,7,8,9}" by (simp add: eval_nat_numeral insert_commute) 
    then show ?thesis by (auto simp add: char_of_eq_iff)
  qed
  show ?case
  proof (cases "n < 10")
    case True
    then show ?thesis using d [of n] by (simp add: dec_digits.simps [of n])
  next
    case False
    then show ?thesis using 1 d [of "n mod 10"] by (simp add: dec_digits.simps [of n])
  qed
qed

lemma dec_digits_no_leading_zero: "10 \<le> n \<Longrightarrow> hd (dec_digits n) \<noteq> CHR ''0''"
proof (induction n rule: dec_digits.induct)
  case (1 n)
  show ?case
  proof (cases "n div 10 < 10")
    case True
    have "n div 10 \<noteq> 0" using 1(2) by simp
    then have "char_of (48 + n div 10) \<noteq> CHR ''0''" using True
      by (simp add: char_of_eq_iff take_bit_eq_mod)
    then show ?thesis
      using 1(2) True by (simp add: dec_digits.simps [of n] dec_digits.simps [of "n div 10"])
  next
    case False
    then have ne: "dec_digits (n div 10) \<noteq> []"
      by (simp add: dec_digits.simps [of "n div 10"])
    show ?thesis
      using 1 False ne by (simp add: dec_digits.simps [of n])
  qed
qed

lemma dec_digits_examples: "dec_digits 5 = ''5''" "dec_digits 0 = ''0''"
  by (simp_all add: dec_digits.simps char_of_eq_iff)

lemma printf_d_size: "printf_d (int n) = dec_digits n"
  by (simp add: printf_d_def)

lemma git_object_hash_c_valid:
  assumes "(type, type_name) \<in> {(1, ''commit''), (2, ''tree''), (3, ''blob''), (4, ''tag'')}"
    and "length content < 2 ^ 31"
  shows "git_object_hash_c EVP_OK type content =
     Inr (SHA1 (type_name @ '' '' @ dec_digits (length content) @ [CHR 0x00] @ content))"
  using assms
  by (auto simp add: git_object_hash_c_def Let_def c_int_of_size_id printf_d_size SHA1_length)

lemma git_object_hash_c_invalid:
  "type \<notin> {1, 2, 3, 4} \<Longrightarrow> git_object_hash_c evp type content = Inl (InvalidObjectType type)"
  by (simp add: git_object_hash_c_def)

lemma git_oid_out_hello:
  "git_oid_out [CHR 0xb6, CHR 0xfc, CHR 0x4c, CHR 0x62, CHR 0x0b, CHR 0x67, CHR 0xd9, CHR 0x5f,
      CHR 0x95, CHR 0x3a, CHR 0x5c, CHR 0x1c, CHR 0x12, CHR 0x30, CHR 0xaa, CHR 0xab, CHR 0x5d,
      CHR 0xb5, CHR 0xa1, CHR 0xb0] = ''b6fc4c620b67d95f953a5c1c1230aaab5db5a1b0''"
  by (simp add: git_oid_out_def nibble_to_hex_def upt_rec)

lemma git_oid_out_empty:
  "git_oid_out [CHR 0xe6, CHR 0x9d, CHR 0xe2, CHR 0x9b, CHR 0xb2, CHR 0xd1, CHR 0xd6, CHR 0x43,
      CHR 0x4b, CHR 0x8b, CHR 0x29, CHR 0xae, CHR 0x77, CHR 0x5a, CHR 0xd8, CHR 0xc2, CHR 0xe4,
      CHR 0x8c, CHR 0x53, CHR 0x91] = ''e69de29bb2d1d6434b8b29ae775ad8c2e48c5391''"
  by (simp add: git_oid_out_def nibble_to_hex_def upt_rec)

lemma hash_blob_hello:
  "map_sum id git_oid_out (git_object_hash_c EVP_OK 3 ''hello'')
     = Inr ''b6fc4c620b67d95f953a5c1c1230aaab5db5a1b0''"
proof -
  have "git_object_hash_c EVP_OK 3 ''hello'' =
          Inr (SHA1 (''blob'' @ '' '' @ dec_digits (length ''hello'') @ [CHR 0x00] @ ''hello''))"
    by (rule git_object_hash_c_valid) simp_all
  moreover have "length ''hello'' = 5"
    by simp
  moreover have "''blob'' @ '' '' @ ''5'' @ [CHR 0x00] @ ''hello'' = ''blob 5'' @ [CHR 0x00] @ ''hello''"
    by simp
  ultimately have "git_object_hash_c EVP_OK 3 ''hello'' = Inr (SHA1 (''blob 5'' @ [CHR 0x00] @ ''hello''))"
    by (simp only: dec_digits_examples)
  then show ?thesis
    by (simp only: sha1_blob_hello git_oid_out_hello map_sum.simps id_apply)
qed

lemma hash_blob_empty:
  "map_sum id git_oid_out (git_object_hash_c EVP_OK 3 [])
     = Inr ''e69de29bb2d1d6434b8b29ae775ad8c2e48c5391''"
proof -
  have "git_object_hash_c EVP_OK 3 [] =
          Inr (SHA1 (''blob'' @ '' '' @ dec_digits (length ([] :: bytes)) @ [CHR 0x00] @ []))"
    by (rule git_object_hash_c_valid) simp_all
  moreover have "length ([] :: bytes) = 0"
    by simp
  moreover have "''blob'' @ '' '' @ ''0'' @ [CHR 0x00] @ [] = ''blob 0'' @ [CHR 0x00]"
    by simp
  ultimately have "git_object_hash_c EVP_OK 3 [] = Inr (SHA1 (''blob 0'' @ [CHR 0x00]))"
    by (simp only: dec_digits_examples)
  then show ?thesis
    by (simp only: sha1_blob_empty git_oid_out_empty map_sum.simps id_apply)
qed

text \<open>
  Claim C1.  For the type codes 1 to 4 (named commit, tree, blob and tag) and every content
  (a \<open>bytea\<close>, so shorter than \<open>2^31\<close> bytes), the hasher returns the 20 bytes of the SHA-1
  of the type name, a space, the decimal length, a NUL byte and the content; every other
  type code is refused as an invalid type; the blob \<open>hello\<close> hashes to
  \<open>b6fc4c620b67d95f953a5c1c1230aaab5db5a1b0\<close> and the empty blob to
  \<open>e69de29bb2d1d6434b8b29ae775ad8c2e48c5391\<close>.
\<close>

theorem git_object_hash_c_sha1:
  "(((type, type_name) \<in> {(1, ''commit''), (2, ''tree''), (3, ''blob''), (4, ''tag'')}
      \<and> length content < 2 ^ 31) \<longrightarrow>
        git_object_hash_c EVP_OK type content =
          Inr (SHA1 (type_name @ '' '' @ dec_digits (length content) @ [CHR 0x00] @ content))
        \<and> length (SHA1 (type_name @ '' '' @ dec_digits (length content) @ [CHR 0x00] @ content)) = 20)
   \<and> (type \<notin> {1, 2, 3, 4} \<longrightarrow> git_object_hash_c evp type content = Inl (InvalidObjectType type))
   \<and> map_sum id git_oid_out (git_object_hash_c EVP_OK 3 ''hello'')
        = Inr ''b6fc4c620b67d95f953a5c1c1230aaab5db5a1b0''
   \<and> map_sum id git_oid_out (git_object_hash_c EVP_OK 3 [])
        = Inr ''e69de29bb2d1d6434b8b29ae775ad8c2e48c5391''"
proof (intro conjI impI)
  assume "(type, type_name) \<in> {(1, ''commit''), (2, ''tree''), (3, ''blob''), (4, ''tag'')}
            \<and> length content < 2 ^ 31"
  then show "git_object_hash_c EVP_OK type content =
      Inr (SHA1 (type_name @ '' '' @ dec_digits (length content) @ [CHR 0x00] @ content))"
    using git_object_hash_c_valid [of type type_name content] by blast
next
  show "length (SHA1 (type_name @ '' '' @ dec_digits (length content) @ [CHR 0x00] @ content)) = 20"
    by (rule SHA1_length)
next
  assume "type \<notin> {1, 2, 3, 4}"
  then show "git_object_hash_c evp type content = Inl (InvalidObjectType type)"
    by (rule git_object_hash_c_invalid)
next
  show "map_sum id git_oid_out (git_object_hash_c EVP_OK 3 ''hello'')
          = Inr ''b6fc4c620b67d95f953a5c1c1230aaab5db5a1b0''"
    by (rule hash_blob_hello)
next
  show "map_sum id git_oid_out (git_object_hash_c EVP_OK 3 [])
          = Inr ''e69de29bb2d1d6434b8b29ae775ad8c2e48c5391''"
    by (rule hash_blob_empty)
qed

theorem git_object_hash_c_sha1_witness:
  "(3, ''blob'') \<in> {(1 :: int, ''commit''), (2, ''tree''), (3, ''blob''), (4, ''tag'')}
   \<and> length ''hello'' < 2 ^ 31
   \<and> git_object_hash_c EVP_OK 3 ''hello'' =
        Inr (SHA1 (''blob'' @ '' '' @ dec_digits (length ''hello'') @ [CHR 0x00] @ ''hello''))
   \<and> (7 :: int) \<notin> {1, 2, 3, 4}
   \<and> git_object_hash_c EVP_DIGEST_FAILED 7 ''hello'' = Inl (InvalidObjectType 7)"
proof -
  have a: "(3, ''blob'') \<in> {(1 :: int, ''commit''), (2, ''tree''), (3, ''blob''), (4, ''tag'')}"
    by simp
  have b: "length ''hello'' < 2 ^ 31"
    by simp
  have c: "(7 :: int) \<notin> {1, 2, 3, 4}"
    by simp
  show ?thesis
    using git_object_hash_c_sha1 [of 3 "''blob''" "''hello''" EVP_DIGEST_FAILED]
      git_object_hash_c_sha1 [of 7 "''blob''" "''hello''" EVP_DIGEST_FAILED] a b c
    by blast
qed

section \<open>Properties of the tree entry parser\<close>

lemma scan_for_ge: "p \<le> scan_for c data p"
proof (induction c data p rule: scan_for.induct)
  case (1 c data p)
  then show ?case
    by (subst scan_for.simps) (auto simp add: Suc_leD)
qed

lemma scan_for_le: "p \<le> length data \<Longrightarrow> scan_for c data p \<le> length data"
proof (induction c data p rule: scan_for.induct)
  case (1 c data p)
  then show ?case
    by (subst scan_for.simps) auto
qed

lemma tree_entry_at_oid_length:
  "tree_entry_at data pos = Inr r \<Longrightarrow> length (entry_oid (fst r)) = 20"
  by (auto simp add: tree_entry_at_def Let_def split: if_splits)

lemma tree_entries_from_oid_length:
  "tree_entries_from data pos = Inr es \<Longrightarrow> \<forall>e\<in>set es. length (entry_oid e) = 20"
proof (induction data pos arbitrary: es rule: tree_entries_from.induct)
  case (1 data pos)
  show ?case
  proof (cases "pos < length data")
    case False
    then have "es = []"
      using "1.prems" by (subst (asm) tree_entries_from.simps) simp
    then show ?thesis by simp
  next
    case True
    then obtain r rest where r: "tree_entry_at data pos = Inr r"
      and rest: "tree_entries_from data (snd r) = Inr rest" and es: "es = fst r # rest"
      using "1.prems"
      by (subst (asm) tree_entries_from.simps) (auto split: sum.splits)
    have "\<forall>e\<in>set rest. length (entry_oid e) = 20"
      using "1.IH" [OF True r rest] .
    then show ?thesis
      using es tree_entry_at_oid_length [OF r] by simp
  qed
qed

lemma truncated_check:
  "(null_pos + 20 \<ge> len \<and> null_pos + 21 > len) \<longleftrightarrow> \<not> (null_pos + 21 \<le> (len :: nat))"
  by auto

lemma tree_entry_at_found:
  assumes "scan_for (CHR '' '') data pos < length data"
    and "scan_for (CHR 0x00) data (scan_for (CHR '' '') data pos + 1) < length data"
  shows "tree_entry_at data pos =
     (let space_pos = scan_for (CHR '' '') data pos;
          null_pos = scan_for (CHR 0x00) data (space_pos + 1)
      in if null_pos + 21 \<le> length data
         then Inr (\<lparr> entry_mode = cstr (take (space_pos - pos) (drop pos data)),
                      entry_name = cstr (take (null_pos - space_pos - 1) (drop (space_pos + 1) data)),
                      entry_oid = take 20 (drop (null_pos + 1) data) \<rparr>,
                   null_pos + 21)
         else Inl TruncatedOid)"
  using assms by (auto simp add: tree_entry_at_def Let_def)

text \<open>
  Claim C6.  Once the space and the NUL of an entry have been found, the entry is accepted
  exactly when \<open>null_pos + 21 \<le> length\<close>, that is when at least 20 bytes follow the NUL;
  otherwise the parser fails with the truncated-OID error.  An accepted entry takes exactly
  the 20 bytes after the NUL as its OID and moves the position to \<open>null_pos + 21\<close>.  The
  conjunction in the source's test is equivalent to \<open>null_pos + 21 > length\<close>, so a record
  that is one byte short (\<open>null_pos + 20 = length\<close>) is refused.
\<close>

theorem tree_entry_oid_bounds:
  assumes "space_pos = scan_for (CHR '' '') data pos"
    and "null_pos = scan_for (CHR 0x00) data (space_pos + 1)"
    and "space_pos < length data"
    and "null_pos < length data"
  shows "(tree_entry_at data pos = Inl TruncatedOid \<longleftrightarrow> length data - (null_pos + 1) < 20)
     \<and> ((\<exists>entry pos'. tree_entry_at data pos = Inr (entry, pos')) \<longleftrightarrow> null_pos + 21 \<le> length data)
     \<and> (\<forall>entry pos'. tree_entry_at data pos = Inr (entry, pos') \<longrightarrow>
           entry_oid entry = take 20 (drop (null_pos + 1) data)
           \<and> length (entry_oid entry) = 20 \<and> pos' = null_pos + 21)
     \<and> (null_pos + 20 = length data \<longrightarrow> tree_entry_at data pos = Inl TruncatedOid)
     \<and> ((null_pos + 20 \<ge> length data \<and> null_pos + 21 > length data)
           \<longleftrightarrow> \<not> (null_pos + 21 \<le> length data))
     \<and> (\<forall>es. git_tree_entries_c data = Inr es \<longrightarrow> (\<forall>e\<in>set es. length (entry_oid e) = 20))"
  using assms tree_entry_at_found [of data pos] tree_entries_from_oid_length [of data 0]
  by (auto simp add: Let_def git_tree_entries_c_def)


theorem tree_entry_oid_bounds_witness:
  "tree_entry_at (''100644 a'' @ [CHR 0x00] @ ''0123456789012345678'') 0 = Inl TruncatedOid
   \<and> (\<exists>entry pos'. tree_entry_at (''100644 a'' @ [CHR 0x00] @ ''01234567890123456789'') 0 = Inr (entry, pos'))"
proof -
  let ?short = "''100644 a'' @ [CHR 0x00] @ ''0123456789012345678''"
  let ?full = "''100644 a'' @ [CHR 0x00] @ ''01234567890123456789''"
  have s1: "scan_for (CHR '' '') ?short 0 = 6"
    by (simp add: scan_for.simps)
  have n1: "scan_for (CHR 0x00) ?short (6 + 1) = 8"
    by (simp add: scan_for.simps)
  have s2: "scan_for (CHR '' '') ?full 0 = 6"
    by (simp add: scan_for.simps)
  have n2: "scan_for (CHR 0x00) ?full (6 + 1) = 8"
    by (simp add: scan_for.simps)
  have "tree_entry_at ?short 0 = Inl TruncatedOid"
    using tree_entry_oid_bounds [of 6 ?short 0 8] s1 n1 by simp
  moreover have "\<exists>entry pos'. tree_entry_at ?full 0 = Inr (entry, pos')"
    using tree_entry_oid_bounds [of 6 ?full 0 8] s2 n2 by simp
  ultimately show ?thesis by blast
qed

section \<open>Properties of the object store\<close>

lemma select_object_after_insert:
  "select_object (insert_object_do_nothing objects row) (o_repo_id row) (o_oid row) \<noteq> []"
  by (auto simp add: select_object_def insert_object_do_nothing_def filter_empty_conv)

lemma insert_object_do_nothing_idem:
  "o_repo_id row' = o_repo_id row \<Longrightarrow> o_oid row' = o_oid row \<Longrightarrow>
   insert_object_do_nothing (insert_object_do_nothing objects row) row'
     = insert_object_do_nothing objects row"
  by (auto simp add: insert_object_do_nothing_def)

lemma objects_pkey_insert:
  "objects_pkey objects \<Longrightarrow> objects_pkey (insert_object_do_nothing objects row)"
  by (auto simp add: objects_pkey_def insert_object_do_nothing_def)

lemma distinct_same_key_le_1:
  "distinct (map f xs) \<Longrightarrow> \<forall>x\<in>set xs. f x = k \<Longrightarrow> length xs \<le> 1"
  by (cases xs rule: remdups_adj.cases) auto

lemma pkey_select_le_1:
  assumes "objects_pkey objects"
  shows "length (select_object objects repo_id oid) \<le> 1"
proof (rule distinct_same_key_le_1)
  show "distinct (map (\<lambda>r. (o_repo_id r, o_oid r)) (select_object objects repo_id oid))"
    using assms unfolding objects_pkey_def select_object_def
    by (rule distinct_map_filter)
  show "\<forall>r\<in>set (select_object objects repo_id oid). (o_repo_id r, o_oid r) = (repo_id, oid)"
    by (simp add: select_object_def)
qed

lemma one_row_after_insert:
  assumes "objects_pkey objects"
  shows "length (select_object (insert_object_do_nothing objects row) (o_repo_id row) (o_oid row)) = 1"
proof -
  have "length (select_object (insert_object_do_nothing objects row) (o_repo_id row) (o_oid row)) \<le> 1"
    using assms by (intro pkey_select_le_1 objects_pkey_insert)
  moreover have "select_object (insert_object_do_nothing objects row) (o_repo_id row) (o_oid row) \<noteq> []"
    by (rule select_object_after_insert)
  ultimately show ?thesis
    by (cases "select_object (insert_object_do_nothing objects row) (o_repo_id row) (o_oid row)") auto
qed

lemma git_object_hash_valid:
  "p_type \<in> {1, 2, 3, 4} \<Longrightarrow> \<exists>v. git_object_hash p_type content = Some v"
  by (auto simp add: git_object_hash_def git_type_name_def)

text \<open>
  Claim C5.  On a table that satisfies its primary key, writing the same object twice
  through \<open>pg_odb_write\<close> succeeds both times, the second write leaves the table as the
  first one left it, and exactly one row has that \<open>(repo_id, oid)\<close>.  The SQL function
  \<open>git_object_write\<close> returns the same result on both calls and its second call changes
  nothing; for a type code from 1 to 4 that result is an OID, stored in exactly one row.
\<close>

theorem object_write_idempotent:
  assumes "objects_pkey objects"
  shows "fst (pg_odb_write False objects repo_id oid data type) = GIT_OK
     \<and> pg_odb_write False (snd (pg_odb_write False objects repo_id oid data type))
           repo_id oid data type
         = (GIT_OK, snd (pg_odb_write False objects repo_id oid data type))
     \<and> length (select_object (snd (pg_odb_write False objects repo_id oid data type))
                 repo_id oid) = 1
     \<and> git_object_write (snd (git_object_write objects repo_id p_type content))
           repo_id p_type content
         = git_object_write objects repo_id p_type content
     \<and> (p_type \<in> {1, 2, 3, 4} \<longrightarrow>
           (\<exists>v. fst (git_object_write objects repo_id p_type content) = Inr v
                \<and> git_object_hash p_type content = Some v
                \<and> length (select_object (snd (git_object_write objects repo_id p_type content))
                            repo_id v) = 1))"
proof (intro conjI impI)
  let ?row = "\<lparr> o_repo_id = repo_id, o_oid = oid, o_type = type,
                 o_size = c_int_of_size (length data), o_content = data \<rparr>"
  show "fst (pg_odb_write False objects repo_id oid data type) = GIT_OK"
    by (simp add: pg_odb_write_def)
  show "pg_odb_write False (snd (pg_odb_write False objects repo_id oid data type))
           repo_id oid data type
         = (GIT_OK, snd (pg_odb_write False objects repo_id oid data type))"
    using insert_object_do_nothing_idem [of ?row ?row objects]
    by (simp add: pg_odb_write_def)
  show "length (select_object (snd (pg_odb_write False objects repo_id oid data type))
                 repo_id oid) = 1"
    using one_row_after_insert [OF assms, of ?row]
    by (simp add: pg_odb_write_def)
next
  show "git_object_write (snd (git_object_write objects repo_id p_type content))
           repo_id p_type content
         = git_object_write objects repo_id p_type content"
  proof (cases "git_object_hash p_type content")
    case None
    then show ?thesis by (simp add: git_object_write_def)
  next
    case (Some v)
    let ?row = "\<lparr> o_repo_id = repo_id, o_oid = v, o_type = p_type,
                   o_size = int (length content), o_content = content \<rparr>"
    show ?thesis
      using Some insert_object_do_nothing_idem [of ?row ?row objects]
      by (simp add: git_object_write_def)
  qed
next
  assume "p_type \<in> {1, 2, 3, 4}"
  then obtain v where v: "git_object_hash p_type content = Some v"
    using git_object_hash_valid by blast
  let ?row = "\<lparr> o_repo_id = repo_id, o_oid = v, o_type = p_type,
                 o_size = int (length content), o_content = content \<rparr>"
  have "length (select_object (insert_object_do_nothing objects ?row) repo_id v) = 1"
    using one_row_after_insert [OF assms, of ?row] by simp
  then show "\<exists>v. fst (git_object_write objects repo_id p_type content) = Inr v
                \<and> git_object_hash p_type content = Some v
                \<and> length (select_object (snd (git_object_write objects repo_id p_type content))
                            repo_id v) = 1"
    using v by (simp add: git_object_write_def)
qed

theorem object_write_idempotent_witness:
  "objects_pkey []
   \<and> pg_odb_write False (snd (pg_odb_write False [] 1 ''aaaaaaaaaaaaaaaaaaaa'' ''hello'' 3))
         1 ''aaaaaaaaaaaaaaaaaaaa'' ''hello'' 3
       = (GIT_OK, snd (pg_odb_write False [] 1 ''aaaaaaaaaaaaaaaaaaaa'' ''hello'' 3))
   \<and> (3 :: int) \<in> {1, 2, 3, 4}
   \<and> (\<exists>v. fst (git_object_write [] 1 3 ''hello'') = Inr v
          \<and> length (select_object (snd (git_object_write [] 1 3 ''hello'')) 1 v) = 1)"
proof -
  have pk: "objects_pkey []"
    by (simp add: objects_pkey_def)
  have ty: "(3 :: int) \<in> {1, 2, 3, 4}"
    by simp
  show ?thesis
    using object_write_idempotent [OF pk, of 1 "''aaaaaaaaaaaaaaaaaaaa''" "''hello''" 3 3 "''hello''"]
      pk ty
    by blast
qed

text \<open>
  Claim C10.  When the query of \<open>pg_odb_exists\<close> fails, the function returns 0 whatever
  the table holds: the same value as a successful query on a table without the object,
  also where a successful query would have returned 1.
\<close>

theorem pg_odb_exists_query_failure:
  "pg_odb_exists True objects repo_id oid = 0
   \<and> pg_odb_exists True objects repo_id oid
       = pg_odb_exists False
           (filter (\<lambda>r. \<not> (o_repo_id r = repo_id \<and> o_oid r = oid)) objects) repo_id oid
   \<and> ((\<exists>r\<in>set objects. o_repo_id r = repo_id \<and> o_oid r = oid)
        \<longrightarrow> pg_odb_exists False objects repo_id oid = 1)"
  by (auto simp add: pg_odb_exists_def select_object_def filter_empty_conv)

theorem pg_odb_exists_query_failure_witness:
  "pg_odb_exists True
      [\<lparr> o_repo_id = 1, o_oid = ''aaaaaaaaaaaaaaaaaaaa'', o_type = 3, o_size = 5,
         o_content = ''hello'' \<rparr>] 1 ''aaaaaaaaaaaaaaaaaaaa'' = 0
   \<and> pg_odb_exists False
      [\<lparr> o_repo_id = 1, o_oid = ''aaaaaaaaaaaaaaaaaaaa'', o_type = 3, o_size = 5,
         o_content = ''hello'' \<rparr>] 1 ''aaaaaaaaaaaaaaaaaaaa'' = 1"
  using pg_odb_exists_query_failure
    [of "[\<lparr> o_repo_id = 1, o_oid = ''aaaaaaaaaaaaaaaaaaaa'', o_type = 3, o_size = 5,
            o_content = ''hello'' \<rparr>]" 1 "''aaaaaaaaaaaaaaaaaaaa''"]
  by simp

lemma byte_len_ceiling:
  "2 * ((prefix_len + 1) div 2) = (if even prefix_len then prefix_len else prefix_len + 1 :: nat)"
  by (cases "even prefix_len") (auto elim: evenE oddE)

lemma pg_odb_read_prefix_short:
  assumes "prefix_len \<noteq> 40"
  shows "pg_odb_read_prefix False False objects repo_id short_oid prefix_len =
     (case select_object_prefix objects repo_id ((prefix_len + 1) div 2) short_oid of
        [] \<Rightarrow> Inl GIT_ENOTFOUND
      | [row] \<Rightarrow> Inr (Some (take 20 (o_oid row)), o_content row,
                       size_t_of_int32 (o_size row), o_type row)
      | _ # _ # _ \<Rightarrow> Inl GIT_EAMBIGUOUS)"
  using assms by (simp add: pg_odb_read_prefix_def Let_def split: list.splits)

lemma pg_odb_read_prefix_full_never_writes_out_oid:
  "pg_odb_read_prefix query_failed alloc_failed objects repo_id short_oid 40
     = Inr (out_oid, data, len, type) \<Longrightarrow> out_oid = None"
  by (auto simp add: pg_odb_read_prefix_def split: sum.splits)

text \<open>
  Claim C3, at a full-length lookup.  With one object stored under the OID \<open>aa...a\<close>, a
  lookup of that OID with \<open>prefix_len = 40\<close> succeeds and returns the content, size and
  type, but \<open>out_oid\<close> is not written; the same lookup with \<open>prefix_len = 39\<close> writes it, and
  so does \<open>pg_odb_exists_prefix\<close> with \<open>prefix_len = 40\<close>.
\<close>

theorem pg_odb_read_prefix_full_length:
  "pg_odb_read_prefix False False
      [\<lparr> o_repo_id = 1, o_oid = ''aaaaaaaaaaaaaaaaaaaa'', o_type = 3, o_size = 5,
         o_content = ''hello'' \<rparr>] 1 ''aaaaaaaaaaaaaaaaaaaa'' 40
     = Inr (None, ''hello'', 5, 3)
   \<and> pg_odb_read_prefix False False
      [\<lparr> o_repo_id = 1, o_oid = ''aaaaaaaaaaaaaaaaaaaa'', o_type = 3, o_size = 5,
         o_content = ''hello'' \<rparr>] 1 ''aaaaaaaaaaaaaaaaaaaa'' 39
     = Inr (Some ''aaaaaaaaaaaaaaaaaaaa'', ''hello'', 5, 3)
   \<and> pg_odb_exists_prefix False
      [\<lparr> o_repo_id = 1, o_oid = ''aaaaaaaaaaaaaaaaaaaa'', o_type = 3, o_size = 5,
         o_content = ''hello'' \<rparr>] 1 ''aaaaaaaaaaaaaaaaaaaa'' 40
     = Inr ''aaaaaaaaaaaaaaaaaaaa''"
  by (simp add: pg_odb_read_prefix_def pg_odb_read_def pg_odb_exists_prefix_def pg_odb_exists_def
      select_object_def select_object_prefix_def size_t_of_int32_def Let_def)

section \<open>Properties of the ref store\<close>
























lemma write_failure_leaves_db:
  "fst (pg_refdb_write failed repo_id db ref force who message old old_target) \<noteq> GIT_OK
     \<Longrightarrow> snd (pg_refdb_write failed repo_id db ref force who message old old_target) = db"
  by (auto simp add: pg_refdb_write_def Let_def split: option.splits if_splits)

lemma write_cas_failure:
  assumes "\<not> failed Begin" and "\<not> failed SelectForUpdate"
    and "write_cas_check (select_ref (refs db) repo_id (git_reference_name ref)) old old_target = rc"
    and "rc \<noteq> GIT_OK"
  shows "pg_refdb_write failed repo_id db ref False who message old old_target = (rc, db)"
  using assms by (simp add: pg_refdb_write_def Let_def)

text \<open>
  Claim C2, as amended.  A write with \<open>force = false\<close> whose \<open>BEGIN\<close> and \<open>SELECT ... FOR
  UPDATE\<close> succeed, where \<open>sel\<close> are the rows selected for the ref's name:
  with \<open>old\<close> or \<open>old_target\<close> supplied it fails with \<open>GIT_ENOTFOUND\<close> when the ref does
  not exist; with \<open>old\<close> supplied it fails with \<open>GIT_EEXISTS\<close> when the stored OID differs
  and with the plain error \<open>-1\<close> when the ref is symbolic; with \<open>old_target\<close> supplied (and
  \<open>old\<close> absent or matching) it fails with \<open>GIT_EEXISTS\<close> when the stored target differs
  and with \<open>-1\<close> when the ref is direct; with neither supplied it fails with
  \<open>GIT_EEXISTS\<close> when the ref exists.  A changed value and an existing ref are reported
  with the same code.  Every call that does not return \<open>0\<close>, forced or not and whichever
  statement failed, leaves the tables as they were.
\<close>

theorem pg_refdb_write_cas:
  assumes "\<not> failed Begin" and "\<not> failed SelectForUpdate"
    and "sel = select_ref (refs db) repo_id (git_reference_name ref)"
    and "length expected = 20"
    and "old_ok \<longleftrightarrow> old = None \<or> (\<exists>row rest. sel = row # rest \<and> old = Some expected
                                          \<and> ref_oid row = Some expected)"
  shows "((old \<noteq> None \<or> old_target \<noteq> None) \<and> sel = [] \<longrightarrow>
            pg_refdb_write failed repo_id db ref False who message old old_target
              = (GIT_ENOTFOUND, db))
     \<and> (\<forall>row rest cur. sel = row # rest \<and> ref_oid row = Some cur \<and> cur \<noteq> expected \<longrightarrow>
            pg_refdb_write failed repo_id db ref False who message (Some expected) old_target
              = (GIT_EEXISTS, db))
     \<and> (\<forall>row rest. sel = row # rest \<and> ref_oid row = None \<longrightarrow>
            pg_refdb_write failed repo_id db ref False who message (Some expected) old_target
              = (GIT_ERROR, db))
     \<and> (\<forall>row rest cur. sel = row # rest \<and> old_ok \<and> ref_symbolic row = Some cur
                          \<and> cur \<noteq> target \<longrightarrow>
            pg_refdb_write failed repo_id db ref False who message old (Some target)
              = (GIT_EEXISTS, db))
     \<and> (\<forall>row rest. sel = row # rest \<and> old_ok \<and> ref_symbolic row = None \<longrightarrow>
            pg_refdb_write failed repo_id db ref False who message old (Some target)
              = (GIT_ERROR, db))
     \<and> (sel \<noteq> [] \<longrightarrow>
            pg_refdb_write failed repo_id db ref False who message None None = (GIT_EEXISTS, db))
     \<and> (fst (pg_refdb_write failed' repo_id db ref force who message old old_target) \<noteq> GIT_OK
          \<longrightarrow> snd (pg_refdb_write failed' repo_id db ref force who message old old_target) = db)"
proof (intro conjI allI impI)
  assume "(old \<noteq> None \<or> old_target \<noteq> None) \<and> sel = []"
  then have "write_cas_check sel old old_target = GIT_ENOTFOUND"
    by (auto simp add: write_cas_check_def)
  then show "pg_refdb_write failed repo_id db ref False who message old old_target
               = (GIT_ENOTFOUND, db)"
    using assms(1-3) by (intro write_cas_failure) simp_all
next
  fix row rest cur
  assume "sel = row # rest \<and> ref_oid row = Some cur \<and> cur \<noteq> expected"
  then have "write_cas_check sel (Some expected) old_target = GIT_EEXISTS"
    using assms(4) by (simp add: write_cas_check_def)
  then show "pg_refdb_write failed repo_id db ref False who message (Some expected) old_target
               = (GIT_EEXISTS, db)"
    using assms(1-3) by (intro write_cas_failure) simp_all
next
  fix row rest
  assume "sel = row # rest \<and> ref_oid row = None"
  then have "write_cas_check sel (Some expected) old_target = GIT_ERROR"
    by (simp add: write_cas_check_def)
  then show "pg_refdb_write failed repo_id db ref False who message (Some expected) old_target
               = (GIT_ERROR, db)"
    using assms(1-3) by (intro write_cas_failure) simp_all
next
  fix row rest cur
  assume "sel = row # rest \<and> old_ok \<and> ref_symbolic row = Some cur \<and> cur \<noteq> target"
  then have "write_cas_check sel old (Some target) = GIT_EEXISTS"
    using assms(4,5) by (auto simp add: write_cas_check_def)
  then show "pg_refdb_write failed repo_id db ref False who message old (Some target)
               = (GIT_EEXISTS, db)"
    using assms(1-3) by (intro write_cas_failure) simp_all
next
  fix row rest
  assume "sel = row # rest \<and> old_ok \<and> ref_symbolic row = None"
  then have "write_cas_check sel old (Some target) = GIT_ERROR"
    using assms(4,5) by (auto simp add: write_cas_check_def)
  then show "pg_refdb_write failed repo_id db ref False who message old (Some target)
               = (GIT_ERROR, db)"
    using assms(1-3) by (intro write_cas_failure) simp_all
next
  assume "sel \<noteq> []"
  then have "write_cas_check sel None None = GIT_EEXISTS"
    by (simp add: write_cas_check_def)
  then show "pg_refdb_write failed repo_id db ref False who message None None = (GIT_EEXISTS, db)"
    using assms(1-3) by (intro write_cas_failure) simp_all
next
  assume "fst (pg_refdb_write failed' repo_id db ref force who message old old_target) \<noteq> GIT_OK"
  then show "snd (pg_refdb_write failed' repo_id db ref force who message old old_target) = db"
    by (rule write_failure_leaves_db)
qed

theorem pg_refdb_write_cas_witness:
  "pg_refdb_write (\<lambda>s. False) 1
      \<lparr> refs = [\<lparr> ref_repo_id = 1, ref_name = ''refs/heads/main'',
                   ref_oid = Some ''aaaaaaaaaaaaaaaaaaaa'', ref_symbolic = None \<rparr>],
        reflog = [] \<rparr>
      (Direct ''refs/heads/main'' ''bbbbbbbbbbbbbbbbbbbb'') False None None
      (Some ''cccccccccccccccccccc'') None
    = (GIT_EEXISTS,
       \<lparr> refs = [\<lparr> ref_repo_id = 1, ref_name = ''refs/heads/main'',
                    ref_oid = Some ''aaaaaaaaaaaaaaaaaaaa'', ref_symbolic = None \<rparr>],
         reflog = [] \<rparr>)"
proof -
  let ?row = "\<lparr> ref_repo_id = 1, ref_name = ''refs/heads/main'',
                ref_oid = Some ''aaaaaaaaaaaaaaaaaaaa'', ref_symbolic = None \<rparr>"
  let ?db = "\<lparr> refs = [?row], reflog = [] \<rparr>"
  let ?ref = "Direct ''refs/heads/main'' ''bbbbbbbbbbbbbbbbbbbb''"
  have sel: "[?row] = select_ref (refs ?db) 1 (git_reference_name ?ref)"
    by (simp add: select_ref_def)
  have len: "length ''cccccccccccccccccccc'' = 20"
    by simp
  have ne: "''aaaaaaaaaaaaaaaaaaaa'' \<noteq> ''cccccccccccccccccccc''"
    by simp
  show ?thesis
    using pg_refdb_write_cas [of "\<lambda>s. False" "[?row]" ?db 1 ?ref "''cccccccccccccccccccc''"
        True None None None None "[]" "\<lambda>s. False" False, OF _ _ sel len] ne
    by simp
qed

text \<open>
  Claim C2 as stated fails.  On a repository whose \<open>refs/heads/main\<close> is at \<open>aa...a\<close> and
  whose \<open>HEAD\<close> is symbolic: a write to \<open>refs/heads/main\<close> that expects \<open>cc...c\<close> and a
  write to it that expects no ref return the same code, \<open>GIT_EEXISTS\<close>; and a write to
  \<open>HEAD\<close> that expects the OID \<open>aa...a\<close>, which \<open>HEAD\<close> does not have, returns \<open>-1\<close> and
  not the code of a changed value.
\<close>

theorem pg_refdb_write_cas_counterexample:
  "pg_refdb_write (\<lambda>s. False) 1
      \<lparr> refs = [\<lparr> ref_repo_id = 1, ref_name = ''refs/heads/main'',
                   ref_oid = Some ''aaaaaaaaaaaaaaaaaaaa'', ref_symbolic = None \<rparr>,
                 \<lparr> ref_repo_id = 1, ref_name = ''HEAD'',
                   ref_oid = None, ref_symbolic = Some ''refs/heads/main'' \<rparr>],
        reflog = [] \<rparr>
      (Direct ''refs/heads/main'' ''bbbbbbbbbbbbbbbbbbbb'') False None None
      (Some ''cccccccccccccccccccc'') None
    = pg_refdb_write (\<lambda>s. False) 1
      \<lparr> refs = [\<lparr> ref_repo_id = 1, ref_name = ''refs/heads/main'',
                   ref_oid = Some ''aaaaaaaaaaaaaaaaaaaa'', ref_symbolic = None \<rparr>,
                 \<lparr> ref_repo_id = 1, ref_name = ''HEAD'',
                   ref_oid = None, ref_symbolic = Some ''refs/heads/main'' \<rparr>],
        reflog = [] \<rparr>
      (Direct ''refs/heads/main'' ''bbbbbbbbbbbbbbbbbbbb'') False None None None None
   \<and> fst (pg_refdb_write (\<lambda>s. False) 1
      \<lparr> refs = [\<lparr> ref_repo_id = 1, ref_name = ''refs/heads/main'',
                   ref_oid = Some ''aaaaaaaaaaaaaaaaaaaa'', ref_symbolic = None \<rparr>,
                 \<lparr> ref_repo_id = 1, ref_name = ''HEAD'',
                   ref_oid = None, ref_symbolic = Some ''refs/heads/main'' \<rparr>],
        reflog = [] \<rparr>
      (Direct ''refs/heads/main'' ''bbbbbbbbbbbbbbbbbbbb'') False None None
      (Some ''cccccccccccccccccccc'') None) = GIT_EEXISTS
   \<and> fst (pg_refdb_write (\<lambda>s. False) 1
      \<lparr> refs = [\<lparr> ref_repo_id = 1, ref_name = ''refs/heads/main'',
                   ref_oid = Some ''aaaaaaaaaaaaaaaaaaaa'', ref_symbolic = None \<rparr>,
                 \<lparr> ref_repo_id = 1, ref_name = ''HEAD'',
                   ref_oid = None, ref_symbolic = Some ''refs/heads/main'' \<rparr>],
        reflog = [] \<rparr>
      (Direct ''HEAD'' ''bbbbbbbbbbbbbbbbbbbb'') False None None
      (Some ''aaaaaaaaaaaaaaaaaaaa'') None) = GIT_ERROR"
  by (simp add: pg_refdb_write_def write_cas_check_def select_ref_def Let_def)

section \<open>Properties of the remote helper's \<open>list\<close> command\<close>

lemma cmd_list_loop_out:
  "fst (cmd_list_loop rows (out, head_oid, head_symbolic)) =
     out @ concat (map (\<lambda>r. PQgetvalue (lr_oid_hex r) @ '' '' @ lr_name r @ [CHR 0x0A])
                    (filter (\<lambda>r. lr_name r \<noteq> ''HEAD'' \<and> lr_oid_hex r \<noteq> None
                                  \<and> length (PQgetvalue (lr_oid_hex r)) > 0) rows))"
proof (induction rows arbitrary: out head_oid head_symbolic)
  case Nil
  show ?case by simp
next
  case (Cons row rows)
  show ?case
    by (simp only: cmd_list_loop.simps Cons.IH filter.simps list.map concat.simps
        append_assoc split: if_split) simp
qed

lemma cmd_list_loop_heads:
  "distinct (map lr_name rows) \<Longrightarrow>
   snd (cmd_list_loop rows (out, head_oid, head_symbolic)) =
     (case find (\<lambda>r. lr_name r = ''HEAD'') rows of
        None \<Rightarrow> (head_oid, head_symbolic)
      | Some h \<Rightarrow> head_state h (head_oid, head_symbolic))"
proof (induction rows arbitrary: out head_oid head_symbolic)
  case Nil
  show ?case by simp
next
  case (Cons row rows)
  have d: "distinct (map lr_name rows)"
    using Cons.prems by simp
  show ?case
  proof (cases "lr_name row = ''HEAD''")
    case True
    then have "\<forall>r\<in>set rows. lr_name r \<noteq> ''HEAD''"
      using Cons.prems by (metis distinct.simps(2) imageI list.simps(9) set_map)
    then have nf: "find (\<lambda>r. lr_name r = ''HEAD'') rows = None"
      by (simp add: find_None_iff)
    show ?thesis
      using True nf Cons.IH [OF d]
      by (simp add: head_state_def)
  next
    case False
    then show ?thesis
      using Cons.IH [OF d] by simp
  qed
qed

lemma cmd_list_resolve_eq:
  "cmd_list_resolve rows target head_oid =
     (case find (\<lambda>r. lr_name r = target \<and> lr_oid_hex r \<noteq> None) rows of
        None \<Rightarrow> head_oid
      | Some r \<Rightarrow> Some (PQgetvalue (lr_oid_hex r)))"
  by (induction rows) auto

lemma cmd_list_resolve_found:
  "cmd_list_resolve rows target None \<noteq> None
     \<longleftrightarrow> (\<exists>r\<in>set rows. lr_name r = target \<and> lr_oid_hex r \<noteq> None)"
  by (induction rows) auto


lemma list_rows_wf_lines:
  assumes "list_rows_wf rows"
  shows "map (\<lambda>r. PQgetvalue (lr_oid_hex r) @ '' '' @ lr_name r @ [CHR 0x0A])
           (filter (\<lambda>r. lr_name r \<noteq> ''HEAD'' \<and> lr_oid_hex r \<noteq> None
                         \<and> length (PQgetvalue (lr_oid_hex r)) > 0) rows)
         = map ref_line (filter (\<lambda>r. lr_name r \<noteq> ''HEAD'' \<and> lr_oid_hex r \<noteq> None) rows)"
proof -
  have ne: "\<forall>r\<in>set rows. lr_oid_hex r \<noteq> None \<longrightarrow> length (PQgetvalue (lr_oid_hex r)) > 0"
    using assms by (auto simp add: list_rows_wf_def PQgetvalue_def)
  have f: "filter (\<lambda>r. lr_name r \<noteq> ''HEAD'' \<and> lr_oid_hex r \<noteq> None
                         \<and> length (PQgetvalue (lr_oid_hex r)) > 0) rows
           = filter (\<lambda>r. lr_name r \<noteq> ''HEAD'' \<and> lr_oid_hex r \<noteq> None) rows"
    using ne by (intro filter_cong) auto
  show ?thesis
    unfolding f by (rule map_cong) (auto simp add: ref_line_def PQgetvalue_def)
qed

lemma cmd_list_head_part:
  assumes "list_rows_wf rows"
    and "cmd_list_loop rows ([], None, None) = (out, head_oid, head_symbolic)"
  shows "(case head_symbolic of
            Some target \<Rightarrow>
              (case cmd_list_resolve rows target head_oid of
                 Some oid \<Rightarrow> ''@'' @ target @ '' HEAD'' @ [CHR 0x0A]
               | None \<Rightarrow> [])
          | None \<Rightarrow>
              (case head_oid of
                 Some oid \<Rightarrow> oid @ '' HEAD'' @ [CHR 0x0A]
               | None \<Rightarrow> [])) = head_line rows"
proof -
  have d: "distinct (map lr_name rows)"
    using assms(1) by (simp add: list_rows_wf_def)
  have st: "(head_oid, head_symbolic) =
     (case find (\<lambda>r. lr_name r = ''HEAD'') rows of
        None \<Rightarrow> (None, None)
      | Some h \<Rightarrow> head_state h (None, None))"
    using cmd_list_loop_heads [OF d, of "[]" None None] assms(2) by simp
  show ?thesis
  proof (cases "find (\<lambda>r. lr_name r = ''HEAD'') rows")
    case None
    then show ?thesis
      using st by (simp add: head_line_def)
  next
    case (Some h)
    then have h: "h \<in> set rows"
      by (auto simp add: find_Some_iff)
    have x: "(lr_oid_hex h \<noteq> None) \<noteq> (lr_symbolic h \<noteq> None)"
      and ne: "lr_oid_hex h \<noteq> Some []" "lr_symbolic h \<noteq> Some []"
      using assms(1) h by (auto simp add: list_rows_wf_def)
    show ?thesis
    proof (cases "lr_symbolic h")
      case None
      then obtain oid where oid: "lr_oid_hex h = Some oid" "oid \<noteq> []"
        using x ne by auto
      then have "head_oid = Some oid" "head_symbolic = None"
        using st Some None by (simp_all add: head_state_def PQgetvalue_def)
      then show ?thesis
        using Some None oid by (simp add: head_line_def)
    next
      case (Some target)
      then have t: "target \<noteq> []" "lr_oid_hex h = None"
        using x ne by auto
      then have hs: "head_oid = None" "head_symbolic = Some target"
        using st \<open>find (\<lambda>r. lr_name r = ''HEAD'') rows = Some h\<close> Some
        by (simp_all add: head_state_def PQgetvalue_def)
      show ?thesis
        using hs \<open>find (\<lambda>r. lr_name r = ''HEAD'') rows = Some h\<close> Some
          cmd_list_resolve_found [of rows target]
        by (auto simp add: head_line_def split: option.splits)
    qed
  qed
qed

text \<open>
  Claim C8.  Both \<open>list\<close> and \<open>list for-push\<close> call \<open>cmd_list\<close>.  For every result of the
  refs query on a table that keeps its constraints (names unique in the repository, exactly
  one of OID and symbolic target set, OIDs and target names not empty), \<open>cmd_list\<close> prints
  one line \<open><hex-oid> <name>\<close> for each direct ref other than \<open>HEAD\<close>, in the order of the
  rows, then the \<open>HEAD\<close> line (\<open>@<target> HEAD\<close> when \<open>HEAD\<close> is symbolic and a direct ref
  named \<open><target>\<close> is in the table, nothing when \<open>HEAD\<close> is symbolic and there is no such
  ref, \<open><hex-oid> HEAD\<close> when \<open>HEAD\<close> is direct, nothing when there is no \<open>HEAD\<close>), then
  an empty line.
\<close>

theorem cmd_list_output:
  assumes "list_rows_wf rows"
  shows "cmd_list (Some rows) =
     Inr (concat (map ref_line
                    (filter (\<lambda>r. lr_name r \<noteq> ''HEAD'' \<and> lr_oid_hex r \<noteq> None) rows))
          @ head_line rows @ [CHR 0x0A])"
proof -
  obtain out head_oid head_symbolic
    where l: "cmd_list_loop rows ([], None, None) = (out, head_oid, head_symbolic)"
    by (metis prod_cases3)
  have out: "out = concat (map ref_line
                    (filter (\<lambda>r. lr_name r \<noteq> ''HEAD'' \<and> lr_oid_hex r \<noteq> None) rows))"
    using cmd_list_loop_out [of rows "[]" None None] l list_rows_wf_lines [OF assms]
    by simp
  show ?thesis
    using l out cmd_list_head_part [OF assms l]
    by (simp add: cmd_list_def)
qed

theorem cmd_list_output_witness:
  "list_rows_wf
     [\<lparr> lr_name = ''HEAD'', lr_oid_hex = None, lr_symbolic = Some ''refs/heads/main'' \<rparr>,
      \<lparr> lr_name = ''refs/heads/main'',
        lr_oid_hex = Some ''aaaaaaaaaaaaaaaaaaaaaaaaaaaaaaaaaaaaaaaa'', lr_symbolic = None \<rparr>,
      \<lparr> lr_name = ''refs/tags/v1'',
        lr_oid_hex = Some ''bbbbbbbbbbbbbbbbbbbbbbbbbbbbbbbbbbbbbbbb'', lr_symbolic = None \<rparr>]
   \<and> cmd_list (Some
     [\<lparr> lr_name = ''HEAD'', lr_oid_hex = None, lr_symbolic = Some ''refs/heads/main'' \<rparr>,
      \<lparr> lr_name = ''refs/heads/main'',
        lr_oid_hex = Some ''aaaaaaaaaaaaaaaaaaaaaaaaaaaaaaaaaaaaaaaa'', lr_symbolic = None \<rparr>,
      \<lparr> lr_name = ''refs/tags/v1'',
        lr_oid_hex = Some ''bbbbbbbbbbbbbbbbbbbbbbbbbbbbbbbbbbbbbbbb'', lr_symbolic = None \<rparr>])
     = Inr (''aaaaaaaaaaaaaaaaaaaaaaaaaaaaaaaaaaaaaaaa refs/heads/main'' @ [CHR 0x0A]
            @ ''bbbbbbbbbbbbbbbbbbbbbbbbbbbbbbbbbbbbbbbb refs/tags/v1'' @ [CHR 0x0A]
            @ ''@refs/heads/main HEAD'' @ [CHR 0x0A]
            @ [CHR 0x0A])
   \<and> list_rows_wf
     [\<lparr> lr_name = ''HEAD'',
        lr_oid_hex = Some ''cccccccccccccccccccccccccccccccccccccccc'', lr_symbolic = None \<rparr>,
      \<lparr> lr_name = ''refs/heads/main'',
        lr_oid_hex = Some ''aaaaaaaaaaaaaaaaaaaaaaaaaaaaaaaaaaaaaaaa'', lr_symbolic = None \<rparr>]
   \<and> cmd_list (Some
     [\<lparr> lr_name = ''HEAD'',
        lr_oid_hex = Some ''cccccccccccccccccccccccccccccccccccccccc'', lr_symbolic = None \<rparr>,
      \<lparr> lr_name = ''refs/heads/main'',
        lr_oid_hex = Some ''aaaaaaaaaaaaaaaaaaaaaaaaaaaaaaaaaaaaaaaa'', lr_symbolic = None \<rparr>])
     = Inr (''aaaaaaaaaaaaaaaaaaaaaaaaaaaaaaaaaaaaaaaa refs/heads/main'' @ [CHR 0x0A]
            @ ''cccccccccccccccccccccccccccccccccccccccc HEAD'' @ [CHR 0x0A]
            @ [CHR 0x0A])"
proof -
  let ?sym =
    "[\<lparr> lr_name = ''HEAD'', lr_oid_hex = None, lr_symbolic = Some ''refs/heads/main'' \<rparr>,
      \<lparr> lr_name = ''refs/heads/main'',
        lr_oid_hex = Some ''aaaaaaaaaaaaaaaaaaaaaaaaaaaaaaaaaaaaaaaa'', lr_symbolic = None \<rparr>,
      \<lparr> lr_name = ''refs/tags/v1'',
        lr_oid_hex = Some ''bbbbbbbbbbbbbbbbbbbbbbbbbbbbbbbbbbbbbbbb'', lr_symbolic = None \<rparr>]"
  let ?dir =
    "[\<lparr> lr_name = ''HEAD'',
        lr_oid_hex = Some ''cccccccccccccccccccccccccccccccccccccccc'', lr_symbolic = None \<rparr>,
      \<lparr> lr_name = ''refs/heads/main'',
        lr_oid_hex = Some ''aaaaaaaaaaaaaaaaaaaaaaaaaaaaaaaaaaaaaaaa'', lr_symbolic = None \<rparr>]"
  have wf_sym: "list_rows_wf ?sym"
    by (simp add: list_rows_wf_def)
  have wf_dir: "list_rows_wf ?dir"
    by (simp add: list_rows_wf_def)
  have "cmd_list (Some ?sym) =
     Inr (concat (map ref_line
                    (filter (\<lambda>r. lr_name r \<noteq> ''HEAD'' \<and> lr_oid_hex r \<noteq> None) ?sym))
          @ head_line ?sym @ [CHR 0x0A])"
    by (rule cmd_list_output [OF wf_sym])
  then have out_sym: "cmd_list (Some ?sym) =
     Inr (''aaaaaaaaaaaaaaaaaaaaaaaaaaaaaaaaaaaaaaaa refs/heads/main'' @ [CHR 0x0A]
          @ ''bbbbbbbbbbbbbbbbbbbbbbbbbbbbbbbbbbbbbbbb refs/tags/v1'' @ [CHR 0x0A]
          @ ''@refs/heads/main HEAD'' @ [CHR 0x0A]
          @ [CHR 0x0A])"
    by (simp add: ref_line_def head_line_def)
  have "cmd_list (Some ?dir) =
     Inr (concat (map ref_line
                    (filter (\<lambda>r. lr_name r \<noteq> ''HEAD'' \<and> lr_oid_hex r \<noteq> None) ?dir))
          @ head_line ?dir @ [CHR 0x0A])"
    by (rule cmd_list_output [OF wf_dir])
  then have out_dir: "cmd_list (Some ?dir) =
     Inr (''aaaaaaaaaaaaaaaaaaaaaaaaaaaaaaaaaaaaaaaa refs/heads/main'' @ [CHR 0x0A]
          @ ''cccccccccccccccccccccccccccccccccccccccc HEAD'' @ [CHR 0x0A]
          @ [CHR 0x0A])"
    by (simp add: ref_line_def head_line_def)
  show ?thesis
    using wf_sym out_sym wf_dir out_dir by blast
qed

text \<open>
  The \<open>strlen(...) > 0\<close> tests are why the theorem asks for values that are not empty: a
  \<open>HEAD\<close> row whose symbolic target is the empty text is treated as a row with no target,
  and nothing is printed for it even when a direct ref with the empty name is in the table.
  When the query fails the helper dies and prints nothing.
\<close>

lemma cmd_list_empty_target:
  "cmd_list (Some
     [\<lparr> lr_name = [], lr_oid_hex = Some ''aaaaaaaaaaaaaaaaaaaaaaaaaaaaaaaaaaaaaaaa'',
        lr_symbolic = None \<rparr>,
      \<lparr> lr_name = ''HEAD'', lr_oid_hex = None, lr_symbolic = Some [] \<rparr>])
     = Inr (''aaaaaaaaaaaaaaaaaaaaaaaaaaaaaaaaaaaaaaaa '' @ [CHR 0x0A] @ [CHR 0x0A])"
  by (simp add: cmd_list_def PQgetvalue_def)

lemma cmd_list_query_failure:
  "cmd_list None = Inl Died"
  by (simp add: cmd_list_def)

end
